theory Spec2Isabelle
  imports Complex_Main "HOL-Library.AList"
begin

section \<open>Reminder notifications of the daily task app\<close>

text \<open>
  The development embeds two source units: the notification helper
  (\<^verbatim>\<open>scheduleTaskReminder\<close>, \<^verbatim>\<open>cancelReminder\<close>,
  \<^verbatim>\<open>checkNotificationPermission\<close>) and the hook
  \<^verbatim>\<open>use-task-notifications.ts\<close> (\<^verbatim>\<open>syncNotifications\<close>,
  \<^verbatim>\<open>clearNotificationMappings\<close> and the module-level \<^verbatim>\<open>notificationMap\<close>).

  Conventions of the model:
  \<^item> instants are integers, milliseconds since the epoch, as \<^verbatim>\<open>Date.getTime()\<close> yields
    them; \<open>reminderTime\<close> of a task is the parsed value of its ISO string, \<open>None\<close> when
    the field is absent or the empty string (both falsy in the source); a string that
    does not parse as a date is outside the model;
  \<^item> strings are byte lists; the pictographs that open the notification titles are written
    as their UTF-8 bytes;
  \<^item> \<^verbatim>\<open>hoursUntilReminder\<close> is a quotient of an integer by 3600, compared with 24, 12
    and 6; it is modelled in the reals (a whole number of seconds is either on a threshold
    or at least 1/3600 away from it, so the double the source computes compares alike);
  \<^item> the expo-notifications library is a parameter: a record of four operations over an
    abstract world \<open>'w\<close>; a promise that rejects is the result \<open>None\<close> (or \<open>False\<close>);
  \<^item> every request that reaches the scheduler is appended to a trace, together with what
    the scheduler answered.
\<close>

subsection \<open>Tasks, requests, the platform\<close>

record task =
  taskId :: string
  taskTitle :: string
  reminderEnabled :: bool
  reminderTime :: "int option"

text \<open>The flag of the \<^verbatim>\<open>data\<close> payload: \<^verbatim>\<open>isAdvanceReminder\<close>,
  \<^verbatim>\<open>isMainReminder\<close> or \<^verbatim>\<open>isFollowUp\<close>.\<close>

datatype reminder_flag = IsAdvanceReminder | IsMainReminder | IsFollowUp

datatype android_priority = DEFAULT | HIGH

text \<open>The argument of \<^verbatim>\<open>Notifications.scheduleNotificationAsync\<close>. The fields that are the
  same constant in every request of the source (sound, badge, channel, trigger type, the
  Android-only vibration pattern and category) are left out.\<close>

record request =
  title :: string
  body :: string
  data_taskId :: string
  data_taskTitle :: string
  data_flag :: reminder_flag
  priority :: android_priority
  seconds :: int

text \<open>A trace entry. \<open>ScheduleCall r res\<close>: the request and the identifier the scheduler
  returned (\<open>None\<close>: the call threw). \<open>CancelCall k h\<close>: a cancel request for identifier
  \<open>h\<close>; \<open>k\<close> is the key of \<^verbatim>\<open>notificationMap\<close> under which \<open>h\<close> was stored (the
  scheduler itself receives \<open>h\<close> only).\<close>

datatype call = ScheduleCall request "string option" | CancelCall string string

record 'w platform =
  getPermissionsAsync :: "'w \<Rightarrow> bool \<times> 'w"
  newDate :: "'w \<Rightarrow> int \<times> 'w"
  scheduleNotificationAsync :: "request \<Rightarrow> 'w \<Rightarrow> string option \<times> 'w"
  cancelScheduledNotificationAsync :: "string \<Rightarrow> 'w \<Rightarrow> bool \<times> 'w"

text \<open>\<^verbatim>\<open>notificationMap\<close> is a JavaScript \<^verbatim>\<open>Map<string, string>\<close>: one
  identifier per task id, iterated in insertion order. It is an association list;
  \<^verbatim>\<open>set\<close> is \<^const>\<open>AList.update\<close> (in place for a present key, at the end
  for a new one), \<^verbatim>\<open>get\<close> is \<^const>\<open>map_of\<close>.\<close>

record 'w state =
  world :: 'w
  trace :: "call list"
  notificationMap :: "(string \<times> string) list"

subsection \<open>notification-helper: permission, scheduling, cancelling\<close>

definition checkNotificationPermission :: "'w platform \<Rightarrow> 'w state \<Rightarrow> bool \<times> 'w state" where
  "checkNotificationPermission P s =
     (case getPermissionsAsync P (world s) of
        (granted, w) \<Rightarrow> (granted, s\<lparr>world := w\<rparr>))"

definition currentDate :: "'w platform \<Rightarrow> 'w state \<Rightarrow> int \<times> 'w state" where
  "currentDate P s = (case newDate P (world s) of (now, w) \<Rightarrow> (now, s\<lparr>world := w\<rparr>))"

definition scheduleNotification ::
  "'w platform \<Rightarrow> request \<Rightarrow> 'w state \<Rightarrow> string option \<times> 'w state" where
  "scheduleNotification P r s =
     (case scheduleNotificationAsync P r (world s) of
        (res, w) \<Rightarrow> (res, s\<lparr>world := w, trace := trace s @ [ScheduleCall r res]\<rparr>))"

text \<open>The entries of the local array \<^verbatim>\<open>advanceNotifications\<close>.\<close>

record notification =
  n_seconds :: int
  n_title :: string
  n_body :: string

definition advanceNotifications :: "string \<Rightarrow> int \<Rightarrow> notification list" where
  "advanceNotifications ttl secondsUntilReminder =
     (let hoursUntilReminder = real_of_int secondsUntilReminder / 3600 in
      (if hoursUntilReminder > 24 then
         (let advanceSeconds = secondsUntilReminder - 24 * 3600 in
          if advanceSeconds > 0 then
            [\<lparr>n_seconds = advanceSeconds,
              n_title = [CHR 0xF0, CHR 0x9F, CHR 0x93, CHR 0x85] @ '' Upcoming Task Tomorrow'',
              n_body = ttl @ '' is scheduled for tomorrow''\<rparr>]
          else [])
       else []) @
      (if hoursUntilReminder > 12 then
         (let advanceSeconds = secondsUntilReminder - 12 * 3600 in
          if advanceSeconds > 0 then
            [\<lparr>n_seconds = advanceSeconds,
              n_title = [CHR 0xE2, CHR 0x8F, CHR 0xB3] @ '' Task in 12 Hours'',
              n_body = ttl @ '' is coming up in 12 hours''\<rparr>]
          else [])
       else []) @
      (if hoursUntilReminder > 6 then
         (let advanceSeconds = secondsUntilReminder - 6 * 3600 in
          if advanceSeconds > 0 then
            [\<lparr>n_seconds = advanceSeconds,
              n_title = [CHR 0xE2, CHR 0x8F, CHR 0xB0] @ '' Task in 6 Hours'',
              n_body = ttl @ '' is coming up in 6 hours''\<rparr>]
          else [])
       else []))"

definition advanceRequest :: "string \<Rightarrow> string \<Rightarrow> notification \<Rightarrow> request" where
  "advanceRequest tid ttl n =
     \<lparr>title = n_title n, body = n_body n, data_taskId = tid, data_taskTitle = ttl,
      data_flag = IsAdvanceReminder, priority = DEFAULT, seconds = n_seconds n\<rparr>"

definition mainRequest :: "string \<Rightarrow> string \<Rightarrow> int \<Rightarrow> request" where
  "mainRequest tid ttl secondsUntilReminder =
     \<lparr>title = [CHR 0xE2, CHR 0x8F, CHR 0xB0] @ '' Task Reminder - NOW'', body = ttl,
      data_taskId = tid, data_taskTitle = ttl, data_flag = IsMainReminder,
      priority = HIGH, seconds = secondsUntilReminder\<rparr>"

definition followUpIntervals :: "int list" where
  "followUpIntervals = [120, 240, 360, 480, 600]"

definition followUpRequest :: "string \<Rightarrow> string \<Rightarrow> int \<Rightarrow> int \<Rightarrow> request" where
  "followUpRequest tid ttl secondsUntilReminder interval =
     \<lparr>title = [CHR 0xF0, CHR 0x9F, CHR 0x94, CHR 0x94] @ '' Reminder: Still Pending'',
      body = ttl, data_taskId = tid, data_taskTitle = ttl, data_flag = IsFollowUp,
      priority = HIGH, seconds = secondsUntilReminder + interval\<rparr>"

text \<open>A \<^verbatim>\<open>for\<close> loop of awaited schedule calls inside the \<^verbatim>\<open>try\<close> block. The
  first call that throws leaves the loop (and the block): the result is \<open>False\<close> and the
  requests after it are not made.\<close>

fun scheduleEach :: "'w platform \<Rightarrow> request list \<Rightarrow> 'w state \<Rightarrow> bool \<times> 'w state" where
  "scheduleEach P [] s = (True, s)"
| "scheduleEach P (r # rs) s =
     (case scheduleNotification P r s of
        (None, s') \<Rightarrow> (False, s')
      | (Some h, s') \<Rightarrow> scheduleEach P rs s')"

text \<open>\<^verbatim>\<open>scheduleTaskReminder(taskId, taskTitle, reminderTime)\<close>. The result \<open>None\<close> is
  the source's \<^verbatim>\<open>null\<close>: permission missing, reminder not after now, or the
  \<^verbatim>\<open>catch\<close> block.\<close>

definition scheduleTaskReminder ::
  "'w platform \<Rightarrow> string \<Rightarrow> string \<Rightarrow> int \<Rightarrow> 'w state \<Rightarrow> string option \<times> 'w state" where
  "scheduleTaskReminder P tid ttl reminderDate s =
     (case checkNotificationPermission P s of
        (hasPermission, s1) \<Rightarrow>
          if \<not> hasPermission then (None, s1)
          else
            (case currentDate P s1 of
               (now, s2) \<Rightarrow>
                 if reminderDate \<le> now then (None, s2)
                 else
                   (let secondsUntilReminder = (reminderDate - now) div 1000 in
                    case scheduleEach P
                           (map (advanceRequest tid ttl)
                              (advanceNotifications ttl secondsUntilReminder)) s2 of
                      (False, s3) \<Rightarrow> (None, s3)
                    | (True, s3) \<Rightarrow>
                        (case scheduleNotification P
                                (mainRequest tid ttl secondsUntilReminder) s3 of
                           (None, s4) \<Rightarrow> (None, s4)
                         | (Some notificationId, s4) \<Rightarrow>
                             (case scheduleEach P
                                     (map (followUpRequest tid ttl secondsUntilReminder)
                                        followUpIntervals) s4 of
                                (False, s5) \<Rightarrow> (None, s5)
                              | (True, s5) \<Rightarrow> (Some notificationId, s5))))))"

text \<open>\<^verbatim>\<open>cancelReminder\<close> catches a failing cancel call and logs it, so the outcome of the
  call is not observable to the caller.\<close>

definition cancelReminder :: "'w platform \<Rightarrow> string \<times> string \<Rightarrow> 'w state \<Rightarrow> 'w state" where
  "cancelReminder P e s =
     (case cancelScheduledNotificationAsync P (snd e) (world s) of
        (ok, w) \<Rightarrow> s\<lparr>world := w, trace := trace s @ [CancelCall (fst e) (snd e)]\<rparr>)"

subsection \<open>use-task-notifications: the reconciliation pass\<close>

text \<open>JavaScript truthiness of a \<^verbatim>\<open>string | null | undefined\<close>.\<close>

fun truthy :: "string option \<Rightarrow> bool" where
  "truthy None = False"
| "truthy (Some h) = (h \<noteq> [])"

text \<open>\<^verbatim>\<open>task.reminderEnabled && task.reminderTime\<close>.\<close>

definition hasReminder :: "task \<Rightarrow> bool" where
  "hasReminder t = (reminderEnabled t \<and> reminderTime t \<noteq> None)"

text \<open>The body of the first loop of \<^verbatim>\<open>syncNotifications\<close>, for one task.\<close>

definition scheduleStep :: "'w platform \<Rightarrow> task \<Rightarrow> 'w state \<Rightarrow> 'w state" where
  "scheduleStep P t s =
     (case reminderTime t of
        None \<Rightarrow> s
      | Some reminderDate \<Rightarrow>
          if \<not> reminderEnabled t then s
          else if truthy (map_of (notificationMap s) (taskId t)) then s
          else
            (case scheduleTaskReminder P (taskId t) (taskTitle t) reminderDate s of
               (None, s') \<Rightarrow> s'
             | (Some notificationId, s') \<Rightarrow>
                 if notificationId \<noteq> [] then
                   s'\<lparr>notificationMap :=
                        AList.update (taskId t) notificationId (notificationMap s')\<rparr>
                 else s'))"

fun scheduleLoop :: "'w platform \<Rightarrow> task list \<Rightarrow> 'w state \<Rightarrow> 'w state" where
  "scheduleLoop P [] s = s"
| "scheduleLoop P (t # ts) s = scheduleLoop P ts (scheduleStep P t s)"

text \<open>The test of the second loop: \<^verbatim>\<open>tasks.find\<close> returns the first task with the
  key as id; the entry goes when there is none, or its reminder is off or has no time.\<close>

definition stale :: "task list \<Rightarrow> string \<Rightarrow> bool" where
  "stale tasks k =
     (case List.find (\<lambda>t. taskId t = k) tasks of
        None \<Rightarrow> True
      | Some t \<Rightarrow> \<not> reminderEnabled t \<or> reminderTime t = None)"

fun cancelLoop :: "'w platform \<Rightarrow> (string \<times> string) list \<Rightarrow> 'w state \<Rightarrow> 'w state" where
  "cancelLoop P [] s = s"
| "cancelLoop P (e # es) s = cancelLoop P es (cancelReminder P e s)"

text \<open>\<^verbatim>\<open>syncNotifications(tasks)\<close>: the scheduling loop; then the loop over the entries
  of the map, which moves the stale ones to \<^verbatim>\<open>notificationIdsToCancel\<close> and deletes
  them from the map; then the loop of cancellations. Neither helper throws, so the outer
  \<^verbatim>\<open>catch\<close> is not reached.\<close>

definition syncNotifications :: "'w platform \<Rightarrow> task list \<Rightarrow> 'w state \<Rightarrow> 'w state" where
  "syncNotifications P tasks s =
     (let s1 = scheduleLoop P tasks s;
          notificationIdsToCancel = filter (\<lambda>e. stale tasks (fst e)) (notificationMap s1);
          s2 = s1\<lparr>notificationMap :=
                    filter (\<lambda>e. \<not> stale tasks (fst e)) (notificationMap s1)\<rparr>
      in cancelLoop P notificationIdsToCancel s2)"

definition clearNotificationMappings :: "'w state \<Rightarrow> 'w state" where
  "clearNotificationMappings s = s\<lparr>notificationMap := []\<rparr>"

subsection \<open>Reading a trace\<close>

text \<open>The calls a run from \<open>s\<close> to \<open>s'\<close> added to the trace.\<close>

definition issued :: "'w state \<Rightarrow> 'w state \<Rightarrow> call list" where
  "issued s s' = drop (length (trace s)) (trace s')"

fun isSchedule :: "call \<Rightarrow> bool" where
  "isSchedule (ScheduleCall r res) = True"
| "isSchedule (CancelCall k h) = False"

text \<open>The task a call is about: the \<^verbatim>\<open>taskId\<close> of a request's payload, the map key of
  a cancellation.\<close>

fun callTask :: "call \<Rightarrow> string" where
  "callTask (ScheduleCall r res) = data_taskId r"
| "callTask (CancelCall k h) = k"

text \<open>The requests \<^verbatim>\<open>scheduleTaskReminder\<close> makes, in the order it makes them, once
  it is past its two guards and as long as no call throws: the advance reminders, the
  main reminder, the follow-ups.\<close>

definition reminderRequests :: "string \<Rightarrow> string \<Rightarrow> int \<Rightarrow> request list" where
  "reminderRequests tid ttl secondsUntilReminder =
     map (advanceRequest tid ttl) (advanceNotifications ttl secondsUntilReminder) @
     mainRequest tid ttl secondsUntilReminder #
     map (followUpRequest tid ttl secondsUntilReminder) followUpIntervals"

text \<open>A schedule call is accepted when the scheduler returned an identifier.\<close>

fun accepted :: "call \<Rightarrow> bool" where
  "accepted (ScheduleCall r res) = (res \<noteq> None)"
| "accepted (CancelCall k h) = True"

fun requestsOf :: "call list \<Rightarrow> request list" where
  "requestsOf [] = []"
| "requestsOf (ScheduleCall r res # cs) = r # requestsOf cs"
| "requestsOf (CancelCall k h # cs) = requestsOf cs"

subsection \<open>Two platforms for concrete runs\<close>

text \<open>Both answer the permission query with a fixed \<open>g\<close> and read a fixed clock. The
  first accepts every request and numbers the identifiers it hands out (its world is the
  number of requests so far). The second answers from a script, one entry per request, and
  rejects once the script is used up.\<close>

definition handle :: "nat \<Rightarrow> string" where
  "handle n = CHR ''n'' # replicate n (CHR ''+'')"

definition fixedPlatform :: "bool \<Rightarrow> int \<Rightarrow> nat platform" where
  "fixedPlatform g now =
     \<lparr>getPermissionsAsync = (\<lambda>w. (g, w)),
      newDate = (\<lambda>w. (now, w)),
      scheduleNotificationAsync = (\<lambda>r w. (Some (handle w), Suc w)),
      cancelScheduledNotificationAsync = (\<lambda>h w. (True, w))\<rparr>"

definition scriptedPlatform :: "bool \<Rightarrow> int \<Rightarrow> (string option list) platform" where
  "scriptedPlatform g now =
     \<lparr>getPermissionsAsync = (\<lambda>w. (g, w)),
      newDate = (\<lambda>w. (now, w)),
      scheduleNotificationAsync = (\<lambda>r w. case w of [] \<Rightarrow> (None, []) | x # xs \<Rightarrow> (x, xs)),
      cancelScheduledNotificationAsync = (\<lambda>h w. (True, w))\<rparr>"

text \<open>The state of a fresh process: nothing requested yet, an empty map.\<close>

definition start :: "'w \<Rightarrow> 'w state" where
  "start w = \<lparr>world = w, trace = [], notificationMap = []\<rparr>"

text \<open>A task for concrete runs.\<close>

definition demoTask :: task where
  "demoTask = \<lparr>taskId = ''t1'', taskTitle = ''Pay rent'', reminderEnabled = True,
               reminderTime = Some 11800000\<rparr>"

definition otherTask :: task where
  "otherTask = \<lparr>taskId = ''t2'', taskTitle = ''Call mum'', reminderEnabled = True,
               reminderTime = Some 4600000\<rparr>"

text \<open>A task whose reminder is 25 hours after the clock reading 1000000, and a script
  that rejects the second request and would accept seven more.\<close>

definition dayAheadTask :: task where
  "dayAheadTask = \<lparr>taskId = ''t3'', taskTitle = ''File taxes'', reminderEnabled = True,
               reminderTime = Some 91000000\<rparr>"

definition rejectSecond :: "string option list" where
  "rejectSecond = [Some ''a'', None, Some ''b'', Some ''c'', Some ''d'', Some ''e'',
                   Some ''f'', Some ''g'', Some ''h'']"

text \<open>The identifiers the scheduler returned in a trace.\<close>

fun returnedHandles :: "call list \<Rightarrow> string list" where
  "returnedHandles [] = []"
| "returnedHandles (ScheduleCall r (Some h) # cs) = h # returnedHandles cs"
| "returnedHandles (ScheduleCall r None # cs) = returnedHandles cs"
| "returnedHandles (CancelCall k h # cs) = returnedHandles cs"

section \<open>Frame and trace lemmas\<close>

subsection \<open>The loop of schedule calls\<close>

lemma scheduleNotification_map [simp]:
  "notificationMap (snd (scheduleNotification P r s)) = notificationMap s"
  by (simp add: scheduleNotification_def split: prod.splits)

lemma scheduleNotification_trace:
  "trace (snd (scheduleNotification P r s)) =
     trace s @ [ScheduleCall r (fst (scheduleNotification P r s))]"
  by (simp add: scheduleNotification_def split: prod.splits)

lemma scheduleEach_map [simp]:
  "notificationMap (snd (scheduleEach P rs s)) = notificationMap s"
proof (induction rs arbitrary: s)
  case Nil
  show ?case by simp
next
  case (Cons r rs)
  obtain res s' where st: "scheduleNotification P r s = (res, s')"
    by (cases "scheduleNotification P r s")
  have m: "notificationMap s' = notificationMap s"
    using scheduleNotification_map [of P r s] st by simp
  show ?case
    using Cons.IH [of s'] st m by (cases res) simp_all
qed

lemma scheduleEach_append:
  "scheduleEach P (xs @ ys) s =
     (if fst (scheduleEach P xs s) then scheduleEach P ys (snd (scheduleEach P xs s))
      else scheduleEach P xs s)"
proof (induction xs arbitrary: s)
  case Nil
  show ?case by simp
next
  case (Cons r rs)
  obtain res s' where st: "scheduleNotification P r s = (res, s')"
    by (cases "scheduleNotification P r s")
  show ?case
    using Cons.IH [of s'] st by (cases res) simp_all
qed

lemma scheduleEach_Cons:
  "scheduleEach P (r # rs) s =
     (if fst (scheduleNotification P r s) = None then (False, snd (scheduleNotification P r s))
      else scheduleEach P rs (snd (scheduleNotification P r s)))"
  by (cases "scheduleNotification P r s") (auto split: option.splits)

subsection \<open>The three ways through \<^verbatim>\<open>scheduleTaskReminder\<close>\<close>

lemma scheduleTaskReminder_denied:
  assumes "checkNotificationPermission P s = (False, s1)"
  shows "scheduleTaskReminder P tid ttl rd s = (None, s1)"
  using assms by (simp add: scheduleTaskReminder_def)

lemma scheduleTaskReminder_past:
  assumes "checkNotificationPermission P s = (True, s1)"
    and "currentDate P s1 = (now, s2)" and "rd \<le> now"
  shows "scheduleTaskReminder P tid ttl rd s = (None, s2)"
  using assms by (simp add: scheduleTaskReminder_def)

lemma scheduleTaskReminder_run:
  assumes p: "checkNotificationPermission P s = (True, s1)"
    and d: "currentDate P s1 = (now, s2)" and f: "now < rd"
  shows "snd (scheduleTaskReminder P tid ttl rd s) =
           snd (scheduleEach P (reminderRequests tid ttl ((rd - now) div 1000)) s2)"
    and "fst (scheduleTaskReminder P tid ttl rd s) =
           (if fst (scheduleEach P (reminderRequests tid ttl ((rd - now) div 1000)) s2)
            then fst (scheduleNotification P (mainRequest tid ttl ((rd - now) div 1000))
                   (snd (scheduleEach P (map (advanceRequest tid ttl)
                      (advanceNotifications ttl ((rd - now) div 1000))) s2)))
            else None)"
proof -
  define secs where "secs = (rd - now) div 1000"
  define advs where "advs = map (advanceRequest tid ttl) (advanceNotifications ttl secs)"
  define fols where "fols = map (followUpRequest tid ttl secs) followUpIntervals"
  obtain b3 s3 where a: "scheduleEach P advs s2 = (b3, s3)"
    by (cases "scheduleEach P advs s2")
  obtain res s4 where m: "scheduleNotification P (mainRequest tid ttl secs) s3 = (res, s4)"
    by (cases "scheduleNotification P (mainRequest tid ttl secs) s3")
  obtain b5 s5 where fo: "scheduleEach P fols s4 = (b5, s5)"
    by (cases "scheduleEach P fols s4")
  have unf: "scheduleTaskReminder P tid ttl rd s =
      (if \<not> b3 then (None, s3)
       else case res of None \<Rightarrow> (None, s4)
            | Some h \<Rightarrow> if b5 then (Some h, s5) else (None, s5))"
    unfolding scheduleTaskReminder_def Let_def
    using p d f a m fo
    by (simp add: secs_def [symmetric] advs_def [symmetric] fols_def [symmetric]
          split: option.splits bool.splits)
  have all: "scheduleEach P (reminderRequests tid ttl secs) s2 =
      (if \<not> b3 then (False, s3)
       else case res of None \<Rightarrow> (False, s4) | Some h \<Rightarrow> (b5, s5))"
    unfolding reminderRequests_def advs_def [symmetric] fols_def [symmetric]
    using a m fo by (simp add: scheduleEach_append split: option.splits)
  show "snd (scheduleTaskReminder P tid ttl rd s) =
           snd (scheduleEach P (reminderRequests tid ttl ((rd - now) div 1000)) s2)"
    unfolding secs_def [symmetric] unf all by (simp split: option.splits)
  show "fst (scheduleTaskReminder P tid ttl rd s) =
           (if fst (scheduleEach P (reminderRequests tid ttl ((rd - now) div 1000)) s2)
            then fst (scheduleNotification P (mainRequest tid ttl ((rd - now) div 1000))
                   (snd (scheduleEach P (map (advanceRequest tid ttl)
                      (advanceNotifications ttl ((rd - now) div 1000))) s2)))
            else None)"
    unfolding secs_def [symmetric] advs_def [symmetric] unf all
    using a m by (simp split: option.splits)
qed

lemma issued_append [simp]: "trace s' = trace s @ ext \<Longrightarrow> issued s s' = ext"
  by (simp add: issued_def)

lemma issued_same [simp]: "issued s s = []"
  by (simp add: issued_def)

lemma scheduleEach_ext:
  "\<exists>ext. trace (snd (scheduleEach P rs s)) = trace s @ ext \<and>
     (\<forall>c\<in>set ext. isSchedule c) \<and>
     (\<exists>n\<le>length rs. requestsOf ext = take n rs) \<and>
     (\<forall>c\<in>set (butlast ext). accepted c) \<and>
     (fst (scheduleEach P rs s) \<longrightarrow> requestsOf ext = rs \<and> (\<forall>c\<in>set ext. accepted c)) \<and>
     (\<not> fst (scheduleEach P rs s) \<longrightarrow> ext \<noteq> [] \<and> \<not> accepted (last ext))"
proof (induction rs arbitrary: s)
  case Nil
  show ?case by simp
next
  case (Cons r rs)
  obtain res s' where st: "scheduleNotification P r s = (res, s')"
    by (cases "scheduleNotification P r s")
  have t: "trace s' = trace s @ [ScheduleCall r res]"
    using scheduleNotification_trace [of P r s] st by simp
  show ?case
  proof (cases res)
    case None
    have "trace (snd (scheduleEach P (r # rs) s)) = trace s @ [ScheduleCall r None]"
      using st t None by simp
    moreover have "\<not> fst (scheduleEach P (r # rs) s)"
      using st None by simp
    moreover have "\<exists>n\<le>length (r # rs). requestsOf [ScheduleCall r None] = take n (r # rs)"
      by (rule exI [of _ 1]) simp
    ultimately show ?thesis by simp
  next
    case (Some h)
    from Cons.IH [of s'] obtain ext n where
      e: "trace (snd (scheduleEach P rs s')) = trace s' @ ext"
         "\<forall>c\<in>set ext. isSchedule c"
         "n \<le> length rs" "requestsOf ext = take n rs"
         "\<forall>c\<in>set (butlast ext). accepted c"
         "fst (scheduleEach P rs s') \<longrightarrow> requestsOf ext = rs \<and> (\<forall>c\<in>set ext. accepted c)"
         "\<not> fst (scheduleEach P rs s') \<longrightarrow> ext \<noteq> [] \<and> \<not> accepted (last ext)"
      by blast
    have eq: "scheduleEach P (r # rs) s = scheduleEach P rs s'"
      using st Some by simp
    let ?ext = "ScheduleCall r (Some h) # ext"
    have 1: "trace (snd (scheduleEach P (r # rs) s)) = trace s @ ?ext"
      using eq e(1) t Some by simp
    have 2: "\<forall>c\<in>set ?ext. isSchedule c" using e(2) by simp
    have 3: "\<exists>n\<le>length (r # rs). requestsOf ?ext = take n (r # rs)"
      using e(3,4) by (intro exI [of _ "Suc n"]) simp
    have 4: "\<forall>c\<in>set (butlast ?ext). accepted c" using e(5) by simp
    have 5: "fst (scheduleEach P (r # rs) s) \<longrightarrow>
               requestsOf ?ext = r # rs \<and> (\<forall>c\<in>set ?ext. accepted c)"
      using e(6) eq by simp
    have 6: "\<not> fst (scheduleEach P (r # rs) s) \<longrightarrow> ?ext \<noteq> [] \<and> \<not> accepted (last ?ext)"
      using e(7) eq by simp
    show ?thesis using 1 2 3 4 5 6 by blast
  qed
qed

lemma reminderRequests_taskId: "r \<in> set (reminderRequests tid ttl secs) \<Longrightarrow> data_taskId r = tid"
  by (auto simp: reminderRequests_def advanceRequest_def mainRequest_def followUpRequest_def)

lemma requestsOf_taskId:
  "\<forall>c\<in>set ext. isSchedule c \<Longrightarrow> \<forall>r\<in>set (requestsOf ext). data_taskId r = tid \<Longrightarrow>
   \<forall>c\<in>set ext. callTask c = tid"
  by (induction ext rule: requestsOf.induct) auto

lemma checkNotificationPermission_frame:
  assumes "checkNotificationPermission P s = (b, s1)"
  shows "trace s1 = trace s" and "notificationMap s1 = notificationMap s"
    and "b = fst (getPermissionsAsync P (world s))"
    and "world s1 = snd (getPermissionsAsync P (world s))"
  using assms by (auto simp: checkNotificationPermission_def split: prod.splits)

lemma currentDate_frame:
  assumes "currentDate P s = (now, s1)"
  shows "trace s1 = trace s" and "notificationMap s1 = notificationMap s"
    and "now = fst (newDate P (world s))"
    and "world s1 = snd (newDate P (world s))"
  using assms by (auto simp: currentDate_def split: prod.splits)

lemma scheduleTaskReminder_ext:
  "\<exists>ext. trace (snd (scheduleTaskReminder P tid ttl rd s)) = trace s @ ext \<and>
     (\<forall>c\<in>set ext. isSchedule c \<and> callTask c = tid) \<and>
     (\<forall>c\<in>set (butlast ext). accepted c) \<and>
     (fst (scheduleTaskReminder P tid ttl rd s) \<noteq> None \<longrightarrow> (\<forall>c\<in>set ext. accepted c)) \<and>
     (fst (scheduleTaskReminder P tid ttl rd s) = None \<and> ext \<noteq> [] \<longrightarrow> \<not> accepted (last ext))"
proof -
  obtain b s1 where p: "checkNotificationPermission P s = (b, s1)"
    by (cases "checkNotificationPermission P s")
  obtain now s2 where d: "currentDate P s1 = (now, s2)"
    by (cases "currentDate P s1")
  have t2: "trace s2 = trace s"
    using checkNotificationPermission_frame(1) [OF p] currentDate_frame(1) [OF d] by simp
  show ?thesis
  proof (cases "b \<and> now < rd")
    case False
    then have "trace (snd (scheduleTaskReminder P tid ttl rd s)) = trace s"
      using p d t2 checkNotificationPermission_frame(1) [OF p]
      by (cases b) (simp_all add: scheduleTaskReminder_denied scheduleTaskReminder_past)
    then show ?thesis by simp
  next
    case True
    then have p': "checkNotificationPermission P s = (True, s1)" and f: "now < rd"
      using p by simp_all
    let ?rs = "reminderRequests tid ttl ((rd - now) div 1000)"
    from scheduleEach_ext [of P ?rs s2] obtain ext where
      e: "trace (snd (scheduleEach P ?rs s2)) = trace s2 @ ext"
         "\<forall>c\<in>set ext. isSchedule c"
         "\<exists>n\<le>length ?rs. requestsOf ext = take n ?rs"
         "\<forall>c\<in>set (butlast ext). accepted c"
         "fst (scheduleEach P ?rs s2) \<longrightarrow> requestsOf ext = ?rs \<and> (\<forall>c\<in>set ext. accepted c)"
         "\<not> fst (scheduleEach P ?rs s2) \<longrightarrow> ext \<noteq> [] \<and> \<not> accepted (last ext)"
      by blast
    have "\<forall>r\<in>set (requestsOf ext). data_taskId r = tid"
      using e(3) reminderRequests_taskId by (metis in_set_takeD)
    then have k: "\<forall>c\<in>set ext. callTask c = tid"
      using requestsOf_taskId e(2) by blast
    have 1: "trace (snd (scheduleTaskReminder P tid ttl rd s)) = trace s @ ext"
      using scheduleTaskReminder_run(1) [OF p' d f] e(1) t2 by simp
    have 2: "fst (scheduleTaskReminder P tid ttl rd s) \<noteq> None \<longrightarrow> (\<forall>c\<in>set ext. accepted c)"
      using scheduleTaskReminder_run(2) [OF p' d f, of tid ttl] e(5)
      by (cases "fst (scheduleEach P ?rs s2)") simp_all
    have 3: "fst (scheduleTaskReminder P tid ttl rd s) = None \<and> ext \<noteq> [] \<longrightarrow>
               \<not> accepted (last ext)"
    proof (cases "fst (scheduleEach P ?rs s2)")
      case False
      then show ?thesis using e(6) by simp
    next
      case True
      let ?advs = "map (advanceRequest tid ttl) (advanceNotifications ttl ((rd - now) div 1000))"
      have "fst (scheduleEach P ?advs s2)"
        using True unfolding reminderRequests_def
        by (simp add: scheduleEach_append split: if_splits)
      moreover have "fst (scheduleNotification P (mainRequest tid ttl ((rd - now) div 1000))
                (snd (scheduleEach P ?advs s2))) \<noteq> None"
        using True calculation unfolding reminderRequests_def
        by (simp add: scheduleEach_append scheduleEach_Cons del: scheduleEach.simps split: if_splits)
      ultimately have "fst (scheduleTaskReminder P tid ttl rd s) \<noteq> None"
        using scheduleTaskReminder_run(2) [OF p' d f, of tid ttl] True by simp
      then show ?thesis by auto
    qed
    show ?thesis using 1 2 3 k e(2,4) by blast
  qed
qed

lemma scheduleTaskReminder_map [simp]:
  "notificationMap (snd (scheduleTaskReminder P tid ttl rd s)) = notificationMap s"
proof -
  obtain b s1 where p: "checkNotificationPermission P s = (b, s1)"
    by (cases "checkNotificationPermission P s")
  obtain now s2 where d: "currentDate P s1 = (now, s2)"
    by (cases "currentDate P s1")
  have m1: "notificationMap s1 = notificationMap s"
    using checkNotificationPermission_frame(2) [OF p] .
  have m2: "notificationMap s2 = notificationMap s"
    using currentDate_frame(2) [OF d] m1 by simp
  show ?thesis
  proof (cases "b \<and> now < rd")
    case False
    then show ?thesis
      using p d m1 m2
      by (cases b) (simp_all add: scheduleTaskReminder_denied scheduleTaskReminder_past)
  next
    case True
    then have p': "checkNotificationPermission P s = (True, s1)" and f: "now < rd"
      using p by simp_all
    show ?thesis
      using scheduleTaskReminder_run(1) [OF p' d f, of tid ttl] m2 by simp
  qed
qed

subsection \<open>One task of the scheduling loop\<close>

lemma scheduleStep_skip:
  "\<not> hasReminder t \<or> truthy (map_of (notificationMap s) (taskId t)) \<Longrightarrow>
   scheduleStep P t s = s"
  by (auto simp: scheduleStep_def hasReminder_def split: option.splits)

lemma scheduleStep_run:
  assumes "hasReminder t" and "reminderTime t = Some rd"
    and "\<not> truthy (map_of (notificationMap s) (taskId t))"
  shows "scheduleStep P t s =
     (case scheduleTaskReminder P (taskId t) (taskTitle t) rd s of
        (None, s') \<Rightarrow> s'
      | (Some h, s') \<Rightarrow>
          if h \<noteq> [] then s'\<lparr>notificationMap := AList.update (taskId t) h (notificationMap s')\<rparr>
          else s')"
  using assms by (simp add: scheduleStep_def hasReminder_def)

lemma scheduleStep_trace:
  "hasReminder t \<Longrightarrow> reminderTime t = Some rd \<Longrightarrow>
   \<not> truthy (map_of (notificationMap s) (taskId t)) \<Longrightarrow>
   trace (scheduleStep P t s) = trace (snd (scheduleTaskReminder P (taskId t) (taskTitle t) rd s))"
  by (simp add: scheduleStep_run split: prod.splits option.splits)

lemma scheduleStep_map:
  "hasReminder t \<Longrightarrow> reminderTime t = Some rd \<Longrightarrow>
   \<not> truthy (map_of (notificationMap s) (taskId t)) \<Longrightarrow>
   notificationMap (scheduleStep P t s) =
     (if truthy (fst (scheduleTaskReminder P (taskId t) (taskTitle t) rd s))
      then AList.update (taskId t)
             (the (fst (scheduleTaskReminder P (taskId t) (taskTitle t) rd s)))
             (notificationMap s)
      else notificationMap s)"
proof -
  assume a: "hasReminder t" "reminderTime t = Some rd"
    "\<not> truthy (map_of (notificationMap s) (taskId t))"
  obtain res s' where r: "scheduleTaskReminder P (taskId t) (taskTitle t) rd s = (res, s')"
    by (cases "scheduleTaskReminder P (taskId t) (taskTitle t) rd s")
  have "notificationMap s' = notificationMap s"
    using scheduleTaskReminder_map [of P "taskId t" "taskTitle t" rd s] r by simp
  then show ?thesis
    using r by (cases res) (simp_all add: scheduleStep_run [OF a])
qed

lemma scheduleStep_cases:
  obtains (skip) "scheduleStep P t s = s"
  | (run) rd where "hasReminder t" "reminderTime t = Some rd"
      "\<not> truthy (map_of (notificationMap s) (taskId t))"
proof (cases "hasReminder t \<and> \<not> truthy (map_of (notificationMap s) (taskId t))")
  case False
  then show ?thesis using scheduleStep_skip [of t s P] skip by blast
next
  case True
  then obtain rd where "reminderTime t = Some rd" by (auto simp: hasReminder_def)
  then show ?thesis using True run by blast
qed

lemma scheduleStep_ext:
  "\<exists>ext. trace (scheduleStep P t s) = trace s @ ext \<and>
     (\<forall>c\<in>set ext. isSchedule c \<and> callTask c = taskId t) \<and>
     (ext \<noteq> [] \<longrightarrow> hasReminder t \<and> \<not> truthy (map_of (notificationMap s) (taskId t)))"
proof (cases P t s rule: scheduleStep_cases)
  case skip
  then show ?thesis by simp
next
  case (run rd)
  from scheduleTaskReminder_ext [of P "taskId t" "taskTitle t" rd s] obtain ext where
    "trace (snd (scheduleTaskReminder P (taskId t) (taskTitle t) rd s)) = trace s @ ext"
    "\<forall>c\<in>set ext. isSchedule c \<and> callTask c = taskId t"
    by blast
  then show ?thesis using scheduleStep_trace [OF run, of P] run by auto
qed

lemma scheduleStep_map_of_other:
  "k \<noteq> taskId t \<Longrightarrow>
   map_of (notificationMap (scheduleStep P t s)) k = map_of (notificationMap s) k"
proof (cases P t s rule: scheduleStep_cases)
  case skip
  then show ?thesis by simp
next
  case (run rd)
  assume "k \<noteq> taskId t"
  then show ?thesis using scheduleStep_map [OF run, of P] by (simp add: update_conv')
qed

lemma scheduleStep_map_of_truthy:
  "truthy (map_of (notificationMap s) k) \<Longrightarrow>
   map_of (notificationMap (scheduleStep P t s)) k = map_of (notificationMap s) k"
  by (cases "k = taskId t") (simp_all add: scheduleStep_skip scheduleStep_map_of_other)

lemma scheduleStep_distinct:
  "distinct (map fst (notificationMap s)) \<Longrightarrow>
   distinct (map fst (notificationMap (scheduleStep P t s)))"
proof (cases P t s rule: scheduleStep_cases)
  case skip
  assume "distinct (map fst (notificationMap s))"
  then show ?thesis using skip by simp
next
  case (run rd)
  assume "distinct (map fst (notificationMap s))"
  then show ?thesis using scheduleStep_map [OF run, of P] by (simp add: distinct_update)
qed

subsection \<open>The scheduling loop and the pass\<close>

lemma scheduleLoop_ext:
  "\<exists>ext. trace (scheduleLoop P ts s) = trace s @ ext \<and>
     (\<forall>c\<in>set ext. isSchedule c \<and> (\<exists>t\<in>set ts. hasReminder t \<and> callTask c = taskId t) \<and>
        \<not> truthy (map_of (notificationMap s) (callTask c)))"
proof (induction ts arbitrary: s)
  case Nil
  show ?case by simp
next
  case (Cons t ts)
  from scheduleStep_ext [of P t s] obtain e1 where
    e1: "trace (scheduleStep P t s) = trace s @ e1"
        "\<forall>c\<in>set e1. isSchedule c \<and> callTask c = taskId t"
        "e1 \<noteq> [] \<longrightarrow> hasReminder t \<and> \<not> truthy (map_of (notificationMap s) (taskId t))"
    by blast
  from Cons.IH [of "scheduleStep P t s"] obtain e2 where
    e2: "trace (scheduleLoop P ts (scheduleStep P t s)) = trace (scheduleStep P t s) @ e2"
        "\<forall>c\<in>set e2. isSchedule c \<and> (\<exists>t\<in>set ts. hasReminder t \<and> callTask c = taskId t) \<and>
           \<not> truthy (map_of (notificationMap (scheduleStep P t s)) (callTask c))"
    by blast
  have a: "trace (scheduleLoop P (t # ts) s) = trace s @ (e1 @ e2)"
    using e1(1) e2(1) by simp
  have b: "isSchedule c \<and> (\<exists>t'\<in>set (t # ts). hasReminder t' \<and> callTask c = taskId t') \<and>
        \<not> truthy (map_of (notificationMap s) (callTask c))" if "c \<in> set (e1 @ e2)" for c
  proof (cases "c \<in> set e1")
    case True
    then have "e1 \<noteq> []" by auto
    then show ?thesis using e1(2,3) True by auto
  next
    case False
    then have c2: "c \<in> set e2" using that by simp
    have "\<not> truthy (map_of (notificationMap s) (callTask c))"
      using e2(2) c2 scheduleStep_map_of_truthy [of s "callTask c" P t] by auto
    then show ?thesis using e2(2) c2 by auto
  qed
  show ?case using a b by blast
qed

lemma scheduleLoop_map_of_truthy:
  "truthy (map_of (notificationMap s) k) \<Longrightarrow>
   map_of (notificationMap (scheduleLoop P ts s)) k = map_of (notificationMap s) k"
  by (induction ts arbitrary: s) (simp_all add: scheduleStep_map_of_truthy)

lemma scheduleLoop_map_of_other:
  "\<forall>t\<in>set ts. hasReminder t \<longrightarrow> taskId t \<noteq> k \<Longrightarrow>
   map_of (notificationMap (scheduleLoop P ts s)) k = map_of (notificationMap s) k"
proof (induction ts arbitrary: s)
  case Nil
  show ?case by simp
next
  case (Cons t ts)
  have "map_of (notificationMap (scheduleStep P t s)) k = map_of (notificationMap s) k"
  proof (cases "hasReminder t")
    case True
    then show ?thesis using Cons.prems scheduleStep_map_of_other [of k t P s] by auto
  next
    case False
    then show ?thesis by (simp add: scheduleStep_skip)
  qed
  then show ?case using Cons by simp
qed

lemma scheduleLoop_id:
  "\<forall>t\<in>set ts. hasReminder t \<longrightarrow> truthy (map_of (notificationMap s) (taskId t)) \<Longrightarrow>
   scheduleLoop P ts s = s"
  by (induction ts arbitrary: s) (simp_all add: scheduleStep_skip)

lemma scheduleLoop_distinct:
  "distinct (map fst (notificationMap s)) \<Longrightarrow>
   distinct (map fst (notificationMap (scheduleLoop P ts s)))"
  by (induction ts arbitrary: s) (simp_all add: scheduleStep_distinct)

lemma cancelLoop_trace:
  "trace (cancelLoop P es s) = trace s @ map (\<lambda>e. CancelCall (fst e) (snd e)) es"
  by (induction es arbitrary: s) (simp_all add: cancelReminder_def split: prod.splits)

lemma cancelLoop_map [simp]:
  "notificationMap (cancelLoop P es s) = notificationMap s"
  by (induction es arbitrary: s) (simp_all add: cancelReminder_def split: prod.splits)

lemma syncNotifications_map:
  "notificationMap (syncNotifications P ts s) =
     filter (\<lambda>e. \<not> stale ts (fst e)) (notificationMap (scheduleLoop P ts s))"
  by (simp add: syncNotifications_def Let_def)

lemma syncNotifications_trace:
  "trace (syncNotifications P ts s) =
     trace (scheduleLoop P ts s) @
     map (\<lambda>e. CancelCall (fst e) (snd e))
       (filter (\<lambda>e. stale ts (fst e)) (notificationMap (scheduleLoop P ts s)))"
  by (simp add: syncNotifications_def Let_def cancelLoop_trace)

lemma map_of_filter_key:
  "map_of (filter (\<lambda>e. p (fst e)) al) k = (if p k then map_of al k else None)"
  by (induction al) auto

lemma stale_find:
  "distinct (map taskId ts) \<Longrightarrow> t \<in> set ts \<Longrightarrow> stale ts (taskId t) = (\<not> hasReminder t)"
proof (induction ts)
  case Nil
  then show ?case by simp
next
  case (Cons a ts)
  show ?case
  proof (cases "a = t")
    case True
    then show ?thesis by (simp add: stale_def hasReminder_def)
  next
    case False
    then have "t \<in> set ts" using Cons.prems by simp
    moreover from this have "taskId a \<noteq> taskId t" using Cons.prems by auto
    ultimately show ?thesis using Cons by (simp add: stale_def)
  qed
qed

lemma stale_absent: "k \<notin> taskId ` set ts \<Longrightarrow> stale ts k"
  by (induction ts) (auto simp: stale_def)


lemma scheduleNotification_fst:
  "fst (scheduleNotification P r s) = fst (scheduleNotificationAsync P r (world s))"
  by (simp add: scheduleNotification_def split: prod.splits)

lemma scheduleEach_accepts:
  "\<forall>r w. fst (scheduleNotificationAsync P r w) \<noteq> None \<Longrightarrow> fst (scheduleEach P rs s)"
proof (induction rs arbitrary: s)
  case Nil
  show ?case by simp
next
  case (Cons r rs)
  have "fst (scheduleNotification P r s) \<noteq> None"
    using Cons.prems by (simp add: scheduleNotification_fst)
  then show ?case using Cons by (simp add: scheduleEach_Cons del: scheduleEach.simps)
qed

lemma reminderRequests_25h:
  "reminderRequests tid ttl 90000 =
    [\<lparr>title = [CHR 0xF0, CHR 0x9F, CHR 0x93, CHR 0x85] @ '' Upcoming Task Tomorrow'',
      body = ttl @ '' is scheduled for tomorrow'', data_taskId = tid, data_taskTitle = ttl,
      data_flag = IsAdvanceReminder, priority = DEFAULT, seconds = 3600\<rparr>,
     \<lparr>title = [CHR 0xE2, CHR 0x8F, CHR 0xB3] @ '' Task in 12 Hours'',
      body = ttl @ '' is coming up in 12 hours'', data_taskId = tid, data_taskTitle = ttl,
      data_flag = IsAdvanceReminder, priority = DEFAULT, seconds = 46800\<rparr>,
     \<lparr>title = [CHR 0xE2, CHR 0x8F, CHR 0xB0] @ '' Task in 6 Hours'',
      body = ttl @ '' is coming up in 6 hours'', data_taskId = tid, data_taskTitle = ttl,
      data_flag = IsAdvanceReminder, priority = DEFAULT, seconds = 68400\<rparr>,
     \<lparr>title = [CHR 0xE2, CHR 0x8F, CHR 0xB0] @ '' Task Reminder - NOW'', body = ttl,
      data_taskId = tid, data_taskTitle = ttl, data_flag = IsMainReminder,
      priority = HIGH, seconds = 90000\<rparr>,
     followUpRequest tid ttl 90000 120, followUpRequest tid ttl 90000 240,
     followUpRequest tid ttl 90000 360, followUpRequest tid ttl 90000 480,
     followUpRequest tid ttl 90000 600]"
  by (simp add: reminderRequests_def advanceNotifications_def advanceRequest_def
        mainRequest_def followUpIntervals_def)

lemma map_of_fresh:
  "map_of (filter (\<lambda>e. \<not> stale ts (fst e)) al) k = (if stale ts k then None else map_of al k)"
  using map_of_filter_key [of "\<lambda>k. \<not> stale ts k" al k] by simp

lemma syncNotifications_ext:
  "\<exists>ext. trace (scheduleLoop P ts s) = trace s @ ext \<and>
     issued s (syncNotifications P ts s) =
       ext @ map (\<lambda>e. CancelCall (fst e) (snd e))
               (filter (\<lambda>e. stale ts (fst e)) (notificationMap (scheduleLoop P ts s))) \<and>
     (\<forall>c\<in>set ext. isSchedule c \<and> (\<exists>t\<in>set ts. hasReminder t \<and> callTask c = taskId t) \<and>
        \<not> truthy (map_of (notificationMap s) (callTask c)))"
proof -
  from scheduleLoop_ext [of P ts s] obtain ext where
    e: "trace (scheduleLoop P ts s) = trace s @ ext"
       "\<forall>c\<in>set ext. isSchedule c \<and> (\<exists>t\<in>set ts. hasReminder t \<and> callTask c = taskId t) \<and>
          \<not> truthy (map_of (notificationMap s) (callTask c))"
    by blast
  have "trace (syncNotifications P ts s) =
      trace s @ (ext @ map (\<lambda>e. CancelCall (fst e) (snd e))
               (filter (\<lambda>e. stale ts (fst e)) (notificationMap (scheduleLoop P ts s))))"
    using e(1) by (simp add: syncNotifications_trace)
  then show ?thesis using e issued_append by blast
qed

lemma syncNotifications_fresh:
  "\<forall>e\<in>set (notificationMap (syncNotifications P ts s)). \<not> stale ts (fst e)"
  by (simp add: syncNotifications_map)

lemma syncNotifications_idle:
  assumes act: "\<forall>t\<in>set ts. hasReminder t \<longrightarrow> truthy (map_of (notificationMap s) (taskId t))"
    and fresh: "\<forall>e\<in>set (notificationMap s). \<not> stale ts (fst e)"
  shows "syncNotifications P ts s = s"
proof -
  have l: "scheduleLoop P ts s = s" using scheduleLoop_id [OF act] .
  have f1: "filter (\<lambda>e. stale ts (fst e)) (notificationMap s) = []"
    using fresh by (simp add: filter_empty_conv)
  have f2: "filter (\<lambda>e. \<not> stale ts (fst e)) (notificationMap s) = notificationMap s"
    using fresh by (simp add: filter_id_conv)
  show ?thesis by (simp add: syncNotifications_def Let_def l f1 f2)
qed

lemma scheduleLoop_append:
  "scheduleLoop P (xs @ ys) s = scheduleLoop P ys (scheduleLoop P xs s)"
  by (induction xs arbitrary: s) simp_all

lemma stale_append:
  "stale (xs @ ys) k =
     (if k \<in> taskId ` set xs then stale xs k else stale ys k)"
  by (induction xs) (auto simp: stale_def)

lemma stale_Cons:
  "stale (t # ts) k = (if taskId t = k then \<not> hasReminder t else stale ts k)"
  by (simp add: stale_def hasReminder_def)

lemma stale_drop_other:
  "k \<noteq> taskId t \<Longrightarrow> stale (pre @ t # post) k = stale (pre @ post) k"
  by (simp add: stale_append stale_Cons)

lemma scheduleTaskReminder_guards:
  assumes perm: "fst (getPermissionsAsync P (world s))"
    and fut: "fst (newDate P (snd (getPermissionsAsync P (world s)))) < rd"
  obtains s1 s2 where "checkNotificationPermission P s = (True, s1)"
    and "currentDate P s1 = (fst (newDate P (snd (getPermissionsAsync P (world s)))), s2)"
    and "trace s2 = trace s"
proof -
  obtain b s1 where p: "checkNotificationPermission P s = (b, s1)"
    by (cases "checkNotificationPermission P s")
  obtain now s2 where d: "currentDate P s1 = (now, s2)"
    by (cases "currentDate P s1")
  have "b" using perm checkNotificationPermission_frame(3) [OF p] by simp
  moreover have "now = fst (newDate P (snd (getPermissionsAsync P (world s))))"
    using checkNotificationPermission_frame(4) [OF p] currentDate_frame(3) [OF d] by simp
  moreover have "trace s2 = trace s"
    using checkNotificationPermission_frame(1) [OF p] currentDate_frame(1) [OF d] by simp
  ultimately show ?thesis using that p d by simp
qed

lemma reminderRequests_nonempty: "reminderRequests tid ttl secs \<noteq> []"
  by (simp add: reminderRequests_def)

lemma scheduleTaskReminder_attempt:
  assumes perm: "fst (getPermissionsAsync P (world s))"
    and fut: "fst (newDate P (snd (getPermissionsAsync P (world s)))) < rd"
  shows "issued s (snd (scheduleTaskReminder P tid ttl rd s)) \<noteq> []"
proof -
  let ?now = "fst (newDate P (snd (getPermissionsAsync P (world s))))"
  from scheduleTaskReminder_guards [OF perm fut] obtain s1 s2 where
    g: "checkNotificationPermission P s = (True, s1)" "currentDate P s1 = (?now, s2)"
       "trace s2 = trace s"
    by blast
  let ?rs = "reminderRequests tid ttl ((rd - ?now) div 1000)"
  from scheduleEach_ext [of P ?rs s2] obtain ext where
    e: "trace (snd (scheduleEach P ?rs s2)) = trace s2 @ ext"
       "fst (scheduleEach P ?rs s2) \<longrightarrow> requestsOf ext = ?rs \<and> (\<forall>c\<in>set ext. accepted c)"
       "\<not> fst (scheduleEach P ?rs s2) \<longrightarrow> ext \<noteq> [] \<and> \<not> accepted (last ext)"
    by blast
  have "ext \<noteq> []"
    using e(2,3) reminderRequests_nonempty [of tid ttl "(rd - ?now) div 1000"]
    by (cases "fst (scheduleEach P ?rs s2)") auto
  moreover have "trace (snd (scheduleTaskReminder P tid ttl rd s)) = trace s @ ext"
    using scheduleTaskReminder_run(1) [OF g(1,2) fut, of tid ttl] e(1) g(3) by simp
  ultimately show ?thesis by simp
qed

lemma scheduleEach_accepts_nonempty:
  "\<forall>r w. \<exists>h. fst (scheduleNotificationAsync P r w) = Some h \<and> h \<noteq> [] \<Longrightarrow>
   fst (scheduleEach P rs s)"
  by (rule scheduleEach_accepts) (metis option.distinct(1))

lemma scheduleTaskReminder_success:
  assumes perm: "fst (getPermissionsAsync P (world s))"
    and fut: "fst (newDate P (snd (getPermissionsAsync P (world s)))) < rd"
    and acc: "\<forall>r w. \<exists>h. fst (scheduleNotificationAsync P r w) = Some h \<and> h \<noteq> []"
  shows "\<exists>h ext. h \<noteq> [] \<and> fst (scheduleTaskReminder P tid ttl rd s) = Some h \<and>
           trace (snd (scheduleTaskReminder P tid ttl rd s)) = trace s @ ext \<and>
           requestsOf ext = reminderRequests tid ttl
             ((rd - fst (newDate P (snd (getPermissionsAsync P (world s))))) div 1000) \<and>
           ScheduleCall (mainRequest tid ttl
             ((rd - fst (newDate P (snd (getPermissionsAsync P (world s))))) div 1000)) (Some h)
             \<in> set ext"
proof -
  let ?now = "fst (newDate P (snd (getPermissionsAsync P (world s))))"
  from scheduleTaskReminder_guards [OF perm fut] obtain s1 s2 where
    g: "checkNotificationPermission P s = (True, s1)" "currentDate P s1 = (?now, s2)"
       "trace s2 = trace s"
    by blast
  let ?secs = "(rd - ?now) div 1000"
  let ?advs = "map (advanceRequest tid ttl) (advanceNotifications ttl ?secs)"
  let ?fols = "map (followUpRequest tid ttl ?secs) followUpIntervals"
  let ?main = "mainRequest tid ttl ?secs"
  let ?rs = "reminderRequests tid ttl ?secs"
  let ?s3 = "snd (scheduleEach P ?advs s2)"
  let ?s4 = "snd (scheduleNotification P ?main ?s3)"
  have all: "fst (scheduleEach P rs s')" for rs s'
    using scheduleEach_accepts_nonempty [OF acc] .
  obtain h where h: "fst (scheduleNotification P ?main ?s3) = Some h" "h \<noteq> []"
    using acc by (metis scheduleNotification_fst)
  have res: "fst (scheduleTaskReminder P tid ttl rd s) = Some h"
    using scheduleTaskReminder_run(2) [OF g(1,2) fut, of tid ttl] all h(1) by simp
  have fin: "snd (scheduleEach P ?rs s2) = snd (scheduleEach P ?fols ?s4)"
    unfolding reminderRequests_def using all h(1)
    by (simp add: scheduleEach_append scheduleEach_Cons del: scheduleEach.simps)
  from scheduleEach_ext [of P ?advs s2] obtain ea where
    ea: "trace ?s3 = trace s2 @ ea" by blast
  from scheduleEach_ext [of P ?fols ?s4] obtain ef where
    ef: "trace (snd (scheduleEach P ?fols ?s4)) = trace ?s4 @ ef" by blast
  have t4: "trace ?s4 = trace ?s3 @ [ScheduleCall ?main (Some h)]"
    using scheduleNotification_trace [of P ?main ?s3] h(1) by simp
  let ?ext = "ea @ ScheduleCall ?main (Some h) # ef"
  have tr: "trace (snd (scheduleTaskReminder P tid ttl rd s)) = trace s @ ?ext"
    using scheduleTaskReminder_run(1) [OF g(1,2) fut, of tid ttl] fin ef ea t4 g(3) by simp
  from scheduleEach_ext [of P ?rs s2] obtain ext where
    e: "trace (snd (scheduleEach P ?rs s2)) = trace s2 @ ext"
       "fst (scheduleEach P ?rs s2) \<longrightarrow> requestsOf ext = ?rs \<and> (\<forall>c\<in>set ext. accepted c)"
    by blast
  have "ext = ?ext"
    using e(1) tr scheduleTaskReminder_run(1) [OF g(1,2) fut, of tid ttl] g(3) by simp
  then have "requestsOf ?ext = ?rs" using e(2) all by simp
  then show ?thesis using h(2) res tr by (intro exI [of _ h] exI [of _ ?ext]) simp
qed

lemma scheduleLoop_for_task:
  assumes "t \<in> set ts" and "distinct (map taskId ts)"
  shows "\<exists>s0 ext. map_of (notificationMap s0) (taskId t) = map_of (notificationMap s) (taskId t) \<and>
           trace (scheduleLoop P ts s) = trace s @ ext \<and>
           (\<forall>c\<in>set ext. isSchedule c) \<and>
           filter (\<lambda>c. callTask c = taskId t) ext = issued s0 (scheduleStep P t s0) \<and>
           map_of (notificationMap (scheduleLoop P ts s)) (taskId t) =
             map_of (notificationMap (scheduleStep P t s0)) (taskId t)"
  using assms
proof (induction ts arbitrary: s)
  case Nil
  then show ?case by simp
next
  case (Cons a ts)
  from scheduleStep_ext [of P a s] obtain e1 where
    e1: "trace (scheduleStep P a s) = trace s @ e1"
        "\<forall>c\<in>set e1. isSchedule c \<and> callTask c = taskId a"
    by blast
  from scheduleLoop_ext [of P ts "scheduleStep P a s"] obtain e2 where
    e2: "trace (scheduleLoop P ts (scheduleStep P a s)) = trace (scheduleStep P a s) @ e2"
        "\<forall>c\<in>set e2. isSchedule c \<and> (\<exists>t'\<in>set ts. hasReminder t' \<and> callTask c = taskId t')"
    by blast
  show ?case
  proof (cases "a = t")
    case True
    have "taskId t \<notin> taskId ` set ts" using Cons.prems True by simp
    then have notin: "\<forall>t'\<in>set ts. taskId t' \<noteq> taskId t" by (metis imageI)
    have f1: "filter (\<lambda>c. callTask c = taskId t) e1 = e1"
      using e1(2) True by (simp add: filter_id_conv)
    have f2: "filter (\<lambda>c. callTask c = taskId t) e2 = []"
      using e2(2) notin by (auto simp: filter_empty_conv)
    have i: "issued s (scheduleStep P t s) = e1" using e1(1) True by simp
    have m: "map_of (notificationMap (scheduleLoop P ts (scheduleStep P t s))) (taskId t) =
             map_of (notificationMap (scheduleStep P t s)) (taskId t)"
      using scheduleLoop_map_of_other [of ts "taskId t" P] notin by blast
    have "trace (scheduleLoop P (a # ts) s) = trace s @ (e1 @ e2)"
      using e1(1) e2(1) by simp
    moreover have "\<forall>c\<in>set (e1 @ e2). isSchedule c" using e1(2) e2(2) by auto
    moreover have "filter (\<lambda>c. callTask c = taskId t) (e1 @ e2) = issued s (scheduleStep P t s)"
      using f1 f2 i by simp
    moreover have "map_of (notificationMap (scheduleLoop P (a # ts) s)) (taskId t) =
             map_of (notificationMap (scheduleStep P t s)) (taskId t)"
      using m True by simp
    ultimately show ?thesis by blast
  next
    case False
    then have mem: "t \<in> set ts" and dist: "distinct (map taskId ts)"
      and ne: "taskId a \<noteq> taskId t"
      using Cons.prems by auto
    from Cons.IH [OF mem dist, of "scheduleStep P a s"] obtain s0 ext where
      ih: "map_of (notificationMap s0) (taskId t) =
             map_of (notificationMap (scheduleStep P a s)) (taskId t)"
          "trace (scheduleLoop P ts (scheduleStep P a s)) = trace (scheduleStep P a s) @ ext"
          "\<forall>c\<in>set ext. isSchedule c"
          "filter (\<lambda>c. callTask c = taskId t) ext = issued s0 (scheduleStep P t s0)"
          "map_of (notificationMap (scheduleLoop P ts (scheduleStep P a s))) (taskId t) =
             map_of (notificationMap (scheduleStep P t s0)) (taskId t)"
      by blast
    have k: "map_of (notificationMap s0) (taskId t) = map_of (notificationMap s) (taskId t)"
      using ih(1) scheduleStep_map_of_other [of "taskId t" a P s] ne by simp
    have f1: "filter (\<lambda>c. callTask c = taskId t) e1 = []"
      using e1(2) ne by (auto simp: filter_empty_conv)
    have "trace (scheduleLoop P (a # ts) s) = trace s @ (e1 @ ext)"
      using e1(1) ih(2) by simp
    moreover have "\<forall>c\<in>set (e1 @ ext). isSchedule c" using e1(2) ih(3) by auto
    moreover have "filter (\<lambda>c. callTask c = taskId t) (e1 @ ext) = issued s0 (scheduleStep P t s0)"
      using f1 ih(4) by simp
    moreover have "map_of (notificationMap (scheduleLoop P (a # ts) s)) (taskId t) =
             map_of (notificationMap (scheduleStep P t s0)) (taskId t)"
      using ih(5) by simp
    ultimately show ?thesis using k by blast
  qed
qed

lemma scheduleStep_denied:
  assumes "\<forall>w. \<not> fst (getPermissionsAsync P w)"
  shows "trace (scheduleStep P t s) = trace s \<and>
         notificationMap (scheduleStep P t s) = notificationMap s"
proof (cases P t s rule: scheduleStep_cases)
  case skip
  then show ?thesis by simp
next
  case (run rd)
  obtain b s1 where p: "checkNotificationPermission P s = (b, s1)"
    by (cases "checkNotificationPermission P s")
  have "\<not> b" using assms checkNotificationPermission_frame(3) [OF p] by simp
  then have "scheduleTaskReminder P (taskId t) (taskTitle t) rd s = (None, s1)"
    using p scheduleTaskReminder_denied by simp
  then show ?thesis
    using scheduleStep_trace [OF run, of P] scheduleStep_map [OF run, of P]
      checkNotificationPermission_frame(1) [OF p]
    by simp
qed

lemma scheduleLoop_denied:
  assumes "\<forall>w. \<not> fst (getPermissionsAsync P w)"
  shows "trace (scheduleLoop P ts s) = trace s \<and>
         notificationMap (scheduleLoop P ts s) = notificationMap s"
  by (induction ts arbitrary: s) (simp_all add: scheduleStep_denied [OF assms])

lemma scheduleStep_keys:
  assumes "k \<in> fst ` set (notificationMap (scheduleStep P t s))"
  shows "k \<in> fst ` set (notificationMap s) \<or> (hasReminder t \<and> taskId t = k)"
proof (cases P t s rule: scheduleStep_cases)
  case skip
  then show ?thesis using assms by simp
next
  case (run rd)
  show ?thesis
  proof (cases "truthy (fst (scheduleTaskReminder P (taskId t) (taskTitle t) rd s))")
    case True
    then have "fst ` set (notificationMap (scheduleStep P t s)) =
          {taskId t} \<union> fst ` set (notificationMap s)"
      using scheduleStep_map [OF run, of P] by (simp add: dom_update)
    then show ?thesis using assms run(1) by auto
  next
    case False
    then have "notificationMap (scheduleStep P t s) = notificationMap s"
      using scheduleStep_map [OF run, of P] by simp
    then show ?thesis using assms by simp
  qed
qed

lemma scheduleLoop_keys:
  assumes "k \<in> fst ` set (notificationMap (scheduleLoop P ts s))"
  shows "k \<in> fst ` set (notificationMap s) \<or> (\<exists>t\<in>set ts. hasReminder t \<and> taskId t = k)"
  using assms
proof (induction ts arbitrary: s)
  case Nil
  then show ?case by simp
next
  case (Cons a ts)
  from Cons.IH [of "scheduleStep P a s"] Cons.prems
  have "k \<in> fst ` set (notificationMap (scheduleStep P a s)) \<or>
        (\<exists>t\<in>set ts. hasReminder t \<and> taskId t = k)"
    by simp
  then show ?case
  proof
    assume "k \<in> fst ` set (notificationMap (scheduleStep P a s))"
    then have "k \<in> fst ` set (notificationMap s) \<or> (hasReminder a \<and> taskId a = k)"
      by (rule scheduleStep_keys)
    then show ?thesis by auto
  next
    assume "\<exists>t\<in>set ts. hasReminder t \<and> taskId t = k"
    then show ?thesis by auto
  qed
qed

lemma last_of_rejected:
  "c \<in> set xs \<Longrightarrow> \<forall>c'\<in>set (butlast xs). accepted c' \<Longrightarrow> \<not> accepted c \<Longrightarrow> c = last xs"
  by (induction xs) (auto split: if_splits)

lemma scheduleLoop_attempts:
  assumes mem: "t \<in> set ts" and dist: "distinct (map taskId ts)"
    and act: "hasReminder t" and rt: "reminderTime t = Some rd"
    and key: "\<not> truthy (map_of (notificationMap s) (taskId t))"
    and granted: "\<forall>w. fst (getPermissionsAsync P w)"
    and fut: "\<forall>w. fst (newDate P w) < rd"
  shows "\<exists>ext. trace (scheduleLoop P ts s) = trace s @ ext \<and>
           (\<exists>c\<in>set ext. isSchedule c \<and> callTask c = taskId t)"
proof -
  from scheduleLoop_for_task [OF mem dist, of s P] obtain s0 ext where
    l: "map_of (notificationMap s0) (taskId t) = map_of (notificationMap s) (taskId t)"
       "trace (scheduleLoop P ts s) = trace s @ ext"
       "\<forall>c\<in>set ext. isSchedule c"
       "filter (\<lambda>c. callTask c = taskId t) ext = issued s0 (scheduleStep P t s0)"
    by blast
  have k0: "\<not> truthy (map_of (notificationMap s0) (taskId t))" using key l(1) by simp
  have "issued s0 (scheduleStep P t s0) =
        issued s0 (snd (scheduleTaskReminder P (taskId t) (taskTitle t) rd s0))"
    using scheduleStep_trace [OF act rt k0, of P] by (simp add: issued_def)
  moreover have "issued s0 (snd (scheduleTaskReminder P (taskId t) (taskTitle t) rd s0)) \<noteq> []"
    using scheduleTaskReminder_attempt granted fut by blast
  ultimately have "filter (\<lambda>c. callTask c = taskId t) ext \<noteq> []" using l(4) by simp
  then obtain c where "c \<in> set ext" "callTask c = taskId t"
    by (auto simp: filter_empty_conv)
  then show ?thesis using l(2,3) by blast
qed

lemma syncNotifications_attempts:
  assumes mem: "t \<in> set ts" and dist: "distinct (map taskId ts)"
    and act: "hasReminder t" and rt: "reminderTime t = Some rd"
    and key: "\<not> truthy (map_of (notificationMap s) (taskId t))"
    and granted: "\<forall>w. fst (getPermissionsAsync P w)"
    and fut: "\<forall>w. fst (newDate P w) < rd"
  shows "\<exists>c\<in>set (issued s (syncNotifications P ts s)). isSchedule c \<and> callTask c = taskId t"
proof -
  from scheduleLoop_attempts [OF assms] obtain ext c where
    e: "trace (scheduleLoop P ts s) = trace s @ ext" "c \<in> set ext"
       "isSchedule c" "callTask c = taskId t"
    by blast
  have "trace (syncNotifications P ts s) =
      trace s @ (ext @ map (\<lambda>e. CancelCall (fst e) (snd e))
               (filter (\<lambda>e. stale ts (fst e)) (notificationMap (scheduleLoop P ts s))))"
    using e(1) by (simp add: syncNotifications_trace)
  then have "c \<in> set (issued s (syncNotifications P ts s))" using e(2) by simp
  then show ?thesis using e(3,4) by blast
qed

lemma cancel_calls_of_key:
  "filter (\<lambda>c. callTask c = k) (map (\<lambda>e. CancelCall (fst e) (snd e)) es) =
     map (\<lambda>e. CancelCall (fst e) (snd e)) (filter (\<lambda>e. fst e = k) es)"
  by (induction es) simp_all

lemma entries_of_key:
  "distinct (map fst al) \<Longrightarrow> map_of al k = Some h \<Longrightarrow> filter (\<lambda>e. fst e = k) al = [(k, h)]"
proof (induction al)
  case Nil
  then show ?case by simp
next
  case (Cons a al)
  show ?case
  proof (cases "fst a = k")
    case True
    then have "a = (k, h)" using Cons.prems(2) by (cases a) simp
    moreover have "fst a \<notin> fst ` set al" using Cons.prems(1) by simp
    then have "\<forall>e\<in>set al. fst e \<noteq> k" using True by (metis imageI)
    then have "filter (\<lambda>e. fst e = k) al = []"
      by (simp add: filter_empty_conv)
    ultimately show ?thesis by simp
  next
    case False
    then show ?thesis using Cons by (cases a) auto
  qed
qed

lemma syncNotifications_first_pass:
  assumes mem: "t \<in> set ts" and dist: "distinct (map taskId ts)"
    and act: "hasReminder t" and rt: "reminderTime t = Some rd"
    and key: "map_of (notificationMap s) (taskId t) = None"
    and granted: "\<forall>w. fst (getPermissionsAsync P w)"
    and fut: "\<forall>w. fst (newDate P w) < rd"
    and acc: "\<forall>r w. \<exists>h. fst (scheduleNotificationAsync P r w) = Some h \<and> h \<noteq> []"
  shows "\<exists>w0 h.
     requestsOf (filter (\<lambda>c. callTask c = taskId t) (issued s (syncNotifications P ts s))) =
       reminderRequests (taskId t) (taskTitle t) ((rd - fst (newDate P w0)) div 1000) \<and>
     ScheduleCall (mainRequest (taskId t) (taskTitle t) ((rd - fst (newDate P w0)) div 1000))
       (Some h) \<in> set (issued s (syncNotifications P ts s)) \<and>
     map_of (notificationMap (syncNotifications P ts s)) (taskId t) = Some h"
proof -
  let ?k = "taskId t"
  from scheduleLoop_for_task [OF mem dist, of s P] obtain s0 ext where
    l: "map_of (notificationMap s0) ?k = map_of (notificationMap s) ?k"
       "trace (scheduleLoop P ts s) = trace s @ ext"
       "filter (\<lambda>c. callTask c = ?k) ext = issued s0 (scheduleStep P t s0)"
       "map_of (notificationMap (scheduleLoop P ts s)) ?k =
          map_of (notificationMap (scheduleStep P t s0)) ?k"
    by blast
  have k0: "\<not> truthy (map_of (notificationMap s0) ?k)" using key l(1) by simp
  let ?r = "scheduleTaskReminder P ?k (taskTitle t) rd s0"
  have g0: "fst (getPermissionsAsync P (world s0))" using granted by simp
  have f0: "fst (newDate P (snd (getPermissionsAsync P (world s0)))) < rd" using fut by simp
  let ?w0 = "snd (getPermissionsAsync P (world s0))"
  define secs where "secs = (rd - fst (newDate P ?w0)) div 1000"
  from scheduleTaskReminder_success [OF g0 f0 acc, of ?k "taskTitle t"]
  obtain h et where
    r: "h \<noteq> []" "fst ?r = Some h" "trace (snd ?r) = trace s0 @ et"
       "requestsOf et = reminderRequests ?k (taskTitle t) secs"
       "ScheduleCall (mainRequest ?k (taskTitle t) secs) (Some h) \<in> set et"
    unfolding secs_def by blast
  have "trace (scheduleStep P t s0) = trace s0 @ et"
    using scheduleStep_trace [OF act rt k0, of P] r(3) by simp
  then have fe: "filter (\<lambda>c. callTask c = ?k) ext = et" using l(3) by simp
  have "notificationMap (scheduleStep P t s0) = AList.update ?k h (notificationMap s0)"
    using scheduleStep_map [OF act rt k0, of P] r(1,2) by simp
  then have ml: "map_of (notificationMap (scheduleLoop P ts s)) ?k = Some h"
    using l(4) by (simp add: update_conv')
  have fresh: "\<not> stale ts ?k" using stale_find [OF dist mem] act by simp
  let ?cs = "map (\<lambda>e. CancelCall (fst e) (snd e))
               (filter (\<lambda>e. stale ts (fst e)) (notificationMap (scheduleLoop P ts s)))"
  have "trace (syncNotifications P ts s) = trace s @ (ext @ ?cs)"
    using l(2) by (simp add: syncNotifications_trace)
  then have i: "issued s (syncNotifications P ts s) = ext @ ?cs" by simp
  have "filter (\<lambda>e. fst e = ?k)
          (filter (\<lambda>e. stale ts (fst e)) (notificationMap (scheduleLoop P ts s))) = []"
    using fresh by (auto simp: filter_empty_conv)
  then have fc: "filter (\<lambda>c. callTask c = ?k) ?cs = []"
    by (simp add: cancel_calls_of_key)
  have 1: "requestsOf (filter (\<lambda>c. callTask c = ?k) (issued s (syncNotifications P ts s))) =
       reminderRequests ?k (taskTitle t) secs"
    using i fe fc r(4) by simp
  have "set et \<subseteq> set ext" using fe by (metis filter_is_subset)
  then have 2: "ScheduleCall (mainRequest ?k (taskTitle t) secs) (Some h)
       \<in> set (issued s (syncNotifications P ts s))"
    using r(5) i by auto
  have 3: "map_of (notificationMap (syncNotifications P ts s)) ?k = Some h"
    using ml fresh by (simp add: syncNotifications_map map_of_fresh)
  show ?thesis using 1 2 3 unfolding secs_def by blast
qed

lemma syncNotifications_distinct:
  "distinct (map fst (notificationMap s)) \<Longrightarrow>
   distinct (map fst (notificationMap (syncNotifications P ts s)))"
  by (simp add: syncNotifications_map scheduleLoop_distinct distinct_map_filter)

lemma syncNotifications_removed:
  assumes key: "map_of (notificationMap s) k = Some h"
    and dk: "distinct (map fst (notificationMap s))"
    and gone: "k \<notin> taskId ` set ts"
  shows "filter (\<lambda>c. callTask c = k) (issued s (syncNotifications P ts s)) = [CancelCall k h] \<and>
         map_of (notificationMap (syncNotifications P ts s)) k = None"
proof -
  have other: "\<forall>t\<in>set ts. hasReminder t \<longrightarrow> taskId t \<noteq> k" using gone by auto
  have st: "stale ts k" using stale_absent [OF gone] .
  let ?al = "notificationMap (scheduleLoop P ts s)"
  have ml: "map_of ?al k = Some h"
    using scheduleLoop_map_of_other [OF other, of P s] key by simp
  have dl: "distinct (map fst ?al)" using scheduleLoop_distinct [OF dk] .
  have ek: "filter (\<lambda>e. fst e = k) ?al = [(k, h)]" using entries_of_key [OF dl ml] .
  from syncNotifications_ext [of P ts s] obtain ext where
    e: "issued s (syncNotifications P ts s) =
          ext @ map (\<lambda>e. CancelCall (fst e) (snd e)) (filter (\<lambda>e. stale ts (fst e)) ?al)"
       "\<forall>c\<in>set ext. \<exists>t\<in>set ts. hasReminder t \<and> callTask c = taskId t"
    by blast
  have "\<forall>c\<in>set ext. callTask c \<noteq> k" using e(2) other by metis
  then have fe: "filter (\<lambda>c. callTask c = k) ext = []"
    by (simp add: filter_empty_conv)
  have "filter (\<lambda>e. fst e = k) (filter (\<lambda>e. stale ts (fst e)) ?al) =
        filter (\<lambda>e. stale ts (fst e)) (filter (\<lambda>e. fst e = k) ?al)"
    by (simp add: conj_commute)
  then have "filter (\<lambda>e. fst e = k) (filter (\<lambda>e. stale ts (fst e)) ?al) = [(k, h)]"
    using ek st by simp
  then have fc: "filter (\<lambda>c. callTask c = k)
      (map (\<lambda>e. CancelCall (fst e) (snd e)) (filter (\<lambda>e. stale ts (fst e)) ?al)) =
      [CancelCall k h]"
    by (simp add: cancel_calls_of_key)
  have 1: "filter (\<lambda>c. callTask c = k) (issued s (syncNotifications P ts s)) = [CancelCall k h]"
    using e(1) fe fc by simp
  have 2: "map_of (notificationMap (syncNotifications P ts s)) k = None"
    using st by (simp add: syncNotifications_map map_of_fresh)
  show ?thesis using 1 2 by simp
qed

lemma syncNotifications_no_cancel:
  assumes dist: "distinct (map taskId ts)"
    and fresh: "\<forall>e\<in>set (notificationMap s). \<not> stale ts (fst e)"
  shows "filter (\<lambda>e. stale ts (fst e)) (notificationMap (scheduleLoop P ts s)) = []"
proof -
  have "\<not> stale ts (fst e)" if ein: "e \<in> set (notificationMap (scheduleLoop P ts s))" for e
  proof -
    have "fst e \<in> fst ` set (notificationMap (scheduleLoop P ts s))" using ein by simp
    then have "fst e \<in> fst ` set (notificationMap s) \<or>
               (\<exists>t\<in>set ts. hasReminder t \<and> taskId t = fst e)"
      by (rule scheduleLoop_keys)
    then show ?thesis
    proof
      assume "fst e \<in> fst ` set (notificationMap s)"
      then obtain e' where "e' \<in> set (notificationMap s)" "fst e' = fst e" by auto
      then show ?thesis using fresh by metis
    next
      assume "\<exists>t\<in>set ts. hasReminder t \<and> taskId t = fst e"
      then obtain t where "t \<in> set ts" "hasReminder t" "taskId t = fst e" by blast
      then show ?thesis using stale_find [OF dist, of t] by simp
    qed
  qed
  then show ?thesis by (simp add: filter_empty_conv)
qed

subsection \<open>Invariants\<close>

text \<open>A pass never writes an empty identifier into the map, and it keeps the keys of the
  map distinct (\<open>syncNotifications_distinct\<close>). The offsets of the event list are never
  negative; those of advance reminders and follow-ups are positive, and that of the main
  reminder is the floored lead time, which is zero for a lead below one second.\<close>

lemma set_update_subset: "set (AList.update k v al) \<subseteq> insert (k, v) (set al)"
  by (induction al) auto

lemma scheduleStep_handles:
  assumes inv: "\<forall>e\<in>set (notificationMap s). snd e \<noteq> []"
  shows "\<forall>e\<in>set (notificationMap (scheduleStep P t s)). snd e \<noteq> []"
proof (cases P t s rule: scheduleStep_cases)
  case skip
  then show ?thesis using inv by simp
next
  case (run rd)
  let ?r = "scheduleTaskReminder P (taskId t) (taskTitle t) rd s"
  show ?thesis
  proof (cases "truthy (fst ?r)")
    case True
    then obtain h where h: "fst ?r = Some h" "h \<noteq> []" by (cases "fst ?r") auto
    have "notificationMap (scheduleStep P t s) = AList.update (taskId t) h (notificationMap s)"
      using scheduleStep_map [OF run, of P] h by simp
    moreover have "set (AList.update (taskId t) h (notificationMap s)) \<subseteq>
        insert (taskId t, h) (set (notificationMap s))"
      by (rule set_update_subset)
    ultimately show ?thesis using inv h(2) by auto
  next
    case False
    then show ?thesis using scheduleStep_map [OF run, of P] inv by simp
  qed
qed

lemma scheduleLoop_handles:
  "\<forall>e\<in>set (notificationMap s). snd e \<noteq> [] \<Longrightarrow>
   \<forall>e\<in>set (notificationMap (scheduleLoop P ts s)). snd e \<noteq> []"
proof (induction ts arbitrary: s)
  case Nil
  then show ?case by simp
next
  case (Cons a ts)
  have "\<forall>e\<in>set (notificationMap (scheduleStep P a s)). snd e \<noteq> []"
    using Cons.prems by (rule scheduleStep_handles)
  then have "\<forall>e\<in>set (notificationMap (scheduleLoop P ts (scheduleStep P a s))). snd e \<noteq> []"
    by (rule Cons.IH)
  then show ?case by simp
qed

lemma syncNotifications_handles:
  assumes "\<forall>e\<in>set (notificationMap s). snd e \<noteq> []"
  shows "\<forall>e\<in>set (notificationMap (syncNotifications P ts s)). snd e \<noteq> []"
  using scheduleLoop_handles [OF assms, of P ts] by (simp add: syncNotifications_map)

lemma reminderRequests_offsets:
  assumes "0 \<le> secs" and "r \<in> set (reminderRequests tid ttl secs)"
  shows "0 \<le> seconds r \<and> (data_flag r \<noteq> IsMainReminder \<longrightarrow> 0 < seconds r) \<and>
         (data_flag r = IsMainReminder \<longrightarrow> seconds r = secs)"
  using assms
  by (auto simp: reminderRequests_def advanceNotifications_def advanceRequest_def
        mainRequest_def followUpRequest_def followUpIntervals_def Let_def split: if_splits)

lemma scheduleStep_past:
  assumes rt: "reminderTime t = Some rd" and past: "\<forall>w. rd \<le> fst (newDate P w)"
  shows "trace (scheduleStep P t s) = trace s \<and>
         notificationMap (scheduleStep P t s) = notificationMap s"
proof (cases P t s rule: scheduleStep_cases)
  case skip
  then show ?thesis by simp
next
  case (run rd')
  then have rd': "rd' = rd" using rt by simp
  obtain b s1 where p: "checkNotificationPermission P s = (b, s1)"
    by (cases "checkNotificationPermission P s")
  obtain now s2 where d: "currentDate P s1 = (now, s2)"
    by (cases "currentDate P s1")
  have le: "rd \<le> now" using past currentDate_frame(3) [OF d] by simp
  have t1: "trace s1 = trace s" using checkNotificationPermission_frame(1) [OF p] .
  have t2: "trace s2 = trace s" using currentDate_frame(1) [OF d] t1 by simp
  have r: "scheduleTaskReminder P (taskId t) (taskTitle t) rd s = (None, if b then s2 else s1)"
    using p d le
    by (cases b) (simp_all add: scheduleTaskReminder_denied scheduleTaskReminder_past)
  show ?thesis
    using scheduleStep_trace [OF run, of P] scheduleStep_map [OF run, of P] r t1 t2 rd'
    by simp
qed

lemma syncNotifications_past:
  assumes mem: "t \<in> set ts" and dist: "distinct (map taskId ts)"
    and rt: "reminderTime t = Some rd" and past: "\<forall>w. rd \<le> fst (newDate P w)"
  shows "(\<forall>c\<in>set (issued s (syncNotifications P ts s)). isSchedule c \<longrightarrow> callTask c \<noteq> taskId t) \<and>
         (map_of (notificationMap s) (taskId t) = None \<longrightarrow>
            map_of (notificationMap (syncNotifications P ts s)) (taskId t) = None)"
proof -
  let ?k = "taskId t"
  from scheduleLoop_for_task [OF mem dist, of s P] obtain s0 ext where
    l: "map_of (notificationMap s0) ?k = map_of (notificationMap s) ?k"
       "trace (scheduleLoop P ts s) = trace s @ ext"
       "filter (\<lambda>c. callTask c = ?k) ext = issued s0 (scheduleStep P t s0)"
       "map_of (notificationMap (scheduleLoop P ts s)) ?k =
          map_of (notificationMap (scheduleStep P t s0)) ?k"
    by blast
  have st: "trace (scheduleStep P t s0) = trace s0"
           "notificationMap (scheduleStep P t s0) = notificationMap s0"
    using scheduleStep_past [OF rt past, of s0] by simp_all
  have "issued s0 (scheduleStep P t s0) = []" using st(1) by (simp add: issued_def)
  then have fe: "\<forall>c\<in>set ext. callTask c \<noteq> ?k"
    using l(3) by (simp add: filter_empty_conv)
  let ?cs = "map (\<lambda>e. CancelCall (fst e) (snd e))
               (filter (\<lambda>e. stale ts (fst e)) (notificationMap (scheduleLoop P ts s)))"
  have "trace (syncNotifications P ts s) = trace s @ (ext @ ?cs)"
    using l(2) by (simp add: syncNotifications_trace)
  then have i: "issued s (syncNotifications P ts s) = ext @ ?cs" by simp
  have 1: "\<forall>c\<in>set (issued s (syncNotifications P ts s)). isSchedule c \<longrightarrow> callTask c \<noteq> ?k"
    unfolding i using fe by auto
  have "map_of (notificationMap (scheduleLoop P ts s)) ?k = map_of (notificationMap s) ?k"
    using l(1,4) st(2) by simp
  then have 2: "map_of (notificationMap s) ?k = None \<longrightarrow>
            map_of (notificationMap (syncNotifications P ts s)) ?k = None"
    by (simp add: syncNotifications_map map_of_fresh)
  show ?thesis using 1 2 by blast
qed

section \<open>The claims\<close>

subsection \<open>The events of one reminder\<close>

text \<open>
  C1. With permission granted, a reminder exactly 25 hours after the clock reading and a
  scheduler that accepts what it is given, \<^verbatim>\<open>scheduleTaskReminder\<close> hands over exactly
  nine requests, in this order: the three advance reminders at 1 h, 13 h and 19 h (the
  first with the body "<title> is scheduled for tomorrow"), the main reminder at 25 h,
  and five follow-ups at 25 h plus 2, 4, 6, 8 and 10 minutes. Every field of every
  request is written out.
\<close>

theorem lead_25h_nine_events:
  assumes perm: "fst (getPermissionsAsync P (world s))"
    and lead: "rd - fst (newDate P (snd (getPermissionsAsync P (world s)))) = 25 * 3600 * 1000"
    and acc: "\<forall>r w. fst (scheduleNotificationAsync P r w) \<noteq> None"
  shows "requestsOf (issued s (snd (scheduleTaskReminder P tid ttl rd s))) =
    [\<lparr>title = [CHR 0xF0, CHR 0x9F, CHR 0x93, CHR 0x85] @ '' Upcoming Task Tomorrow'',
      body = ttl @ '' is scheduled for tomorrow'', data_taskId = tid, data_taskTitle = ttl,
      data_flag = IsAdvanceReminder, priority = DEFAULT, seconds = 1 * 3600\<rparr>,
     \<lparr>title = [CHR 0xE2, CHR 0x8F, CHR 0xB3] @ '' Task in 12 Hours'',
      body = ttl @ '' is coming up in 12 hours'', data_taskId = tid, data_taskTitle = ttl,
      data_flag = IsAdvanceReminder, priority = DEFAULT, seconds = 13 * 3600\<rparr>,
     \<lparr>title = [CHR 0xE2, CHR 0x8F, CHR 0xB0] @ '' Task in 6 Hours'',
      body = ttl @ '' is coming up in 6 hours'', data_taskId = tid, data_taskTitle = ttl,
      data_flag = IsAdvanceReminder, priority = DEFAULT, seconds = 19 * 3600\<rparr>,
     \<lparr>title = [CHR 0xE2, CHR 0x8F, CHR 0xB0] @ '' Task Reminder - NOW'', body = ttl,
      data_taskId = tid, data_taskTitle = ttl, data_flag = IsMainReminder,
      priority = HIGH, seconds = 25 * 3600\<rparr>,
     \<lparr>title = [CHR 0xF0, CHR 0x9F, CHR 0x94, CHR 0x94] @ '' Reminder: Still Pending'',
      body = ttl, data_taskId = tid, data_taskTitle = ttl, data_flag = IsFollowUp,
      priority = HIGH, seconds = 25 * 3600 + 2 * 60\<rparr>,
     \<lparr>title = [CHR 0xF0, CHR 0x9F, CHR 0x94, CHR 0x94] @ '' Reminder: Still Pending'',
      body = ttl, data_taskId = tid, data_taskTitle = ttl, data_flag = IsFollowUp,
      priority = HIGH, seconds = 25 * 3600 + 4 * 60\<rparr>,
     \<lparr>title = [CHR 0xF0, CHR 0x9F, CHR 0x94, CHR 0x94] @ '' Reminder: Still Pending'',
      body = ttl, data_taskId = tid, data_taskTitle = ttl, data_flag = IsFollowUp,
      priority = HIGH, seconds = 25 * 3600 + 6 * 60\<rparr>,
     \<lparr>title = [CHR 0xF0, CHR 0x9F, CHR 0x94, CHR 0x94] @ '' Reminder: Still Pending'',
      body = ttl, data_taskId = tid, data_taskTitle = ttl, data_flag = IsFollowUp,
      priority = HIGH, seconds = 25 * 3600 + 8 * 60\<rparr>,
     \<lparr>title = [CHR 0xF0, CHR 0x9F, CHR 0x94, CHR 0x94] @ '' Reminder: Still Pending'',
      body = ttl, data_taskId = tid, data_taskTitle = ttl, data_flag = IsFollowUp,
      priority = HIGH, seconds = 25 * 3600 + 10 * 60\<rparr>] \<and>
    length (issued s (snd (scheduleTaskReminder P tid ttl rd s))) = 9 \<and>
    (\<forall>c\<in>set (issued s (snd (scheduleTaskReminder P tid ttl rd s))). isSchedule c)"
proof -
  obtain b s1 where p: "checkNotificationPermission P s = (b, s1)"
    by (cases "checkNotificationPermission P s")
  obtain now s2 where d: "currentDate P s1 = (now, s2)"
    by (cases "currentDate P s1")
  have b: "b" using perm checkNotificationPermission_frame(3) [OF p] by simp
  have now: "now = fst (newDate P (snd (getPermissionsAsync P (world s))))"
    using checkNotificationPermission_frame(4) [OF p] currentDate_frame(3) [OF d] by simp
  have ld: "rd - now = 90000000" using lead now by simp
  then have secs: "(rd - now) div 1000 = 90000" by simp
  have f: "now < rd" using ld by simp
  have p': "checkNotificationPermission P s = (True, s1)" using p b by simp
  have t2: "trace s2 = trace s"
    using checkNotificationPermission_frame(1) [OF p] currentDate_frame(1) [OF d] by simp
  let ?rs = "reminderRequests tid ttl 90000"
  from scheduleEach_ext [of P ?rs s2] obtain ext where
    e: "trace (snd (scheduleEach P ?rs s2)) = trace s2 @ ext"
       "\<forall>c\<in>set ext. isSchedule c"
       "fst (scheduleEach P ?rs s2) \<longrightarrow> requestsOf ext = ?rs \<and> (\<forall>c\<in>set ext. accepted c)"
    by blast
  have ok: "fst (scheduleEach P ?rs s2)" using scheduleEach_accepts [OF acc] .
  have "trace (snd (scheduleTaskReminder P tid ttl rd s)) = trace s @ ext"
    using scheduleTaskReminder_run(1) [OF p' d f, of tid ttl] secs e(1) t2 by simp
  then have i: "issued s (snd (scheduleTaskReminder P tid ttl rd s)) = ext" by simp
  have r: "requestsOf ext = ?rs" using e(3) ok by simp
  have len: "length ext = length (requestsOf ext)"
    using e(2) by (induction ext rule: requestsOf.induct) simp_all
  have l9: "length ?rs = 9" by (simp add: reminderRequests_25h)
  show ?thesis
    unfolding i using r len l9 e(2) by (simp add: reminderRequests_25h followUpRequest_def)
qed

theorem lead_25h_nine_events_witness:
  "requestsOf (issued (start 0)
      (snd (scheduleTaskReminder (fixedPlatform True 1000000) ''t1'' ''Pay rent'' 91000000
             (start 0)))) =
    [\<lparr>title = [CHR 0xF0, CHR 0x9F, CHR 0x93, CHR 0x85] @ '' Upcoming Task Tomorrow'',
      body = ''Pay rent is scheduled for tomorrow'', data_taskId = ''t1'',
      data_taskTitle = ''Pay rent'',
      data_flag = IsAdvanceReminder, priority = DEFAULT, seconds = 3600\<rparr>,
     \<lparr>title = [CHR 0xE2, CHR 0x8F, CHR 0xB3] @ '' Task in 12 Hours'',
      body = ''Pay rent is coming up in 12 hours'', data_taskId = ''t1'',
      data_taskTitle = ''Pay rent'',
      data_flag = IsAdvanceReminder, priority = DEFAULT, seconds = 46800\<rparr>,
     \<lparr>title = [CHR 0xE2, CHR 0x8F, CHR 0xB0] @ '' Task in 6 Hours'',
      body = ''Pay rent is coming up in 6 hours'', data_taskId = ''t1'',
      data_taskTitle = ''Pay rent'',
      data_flag = IsAdvanceReminder, priority = DEFAULT, seconds = 68400\<rparr>,
     \<lparr>title = [CHR 0xE2, CHR 0x8F, CHR 0xB0] @ '' Task Reminder - NOW'', body = ''Pay rent'',
      data_taskId = ''t1'', data_taskTitle = ''Pay rent'', data_flag = IsMainReminder,
      priority = HIGH, seconds = 90000\<rparr>,
     \<lparr>title = [CHR 0xF0, CHR 0x9F, CHR 0x94, CHR 0x94] @ '' Reminder: Still Pending'',
      body = ''Pay rent'', data_taskId = ''t1'', data_taskTitle = ''Pay rent'',
      data_flag = IsFollowUp, priority = HIGH, seconds = 90120\<rparr>,
     \<lparr>title = [CHR 0xF0, CHR 0x9F, CHR 0x94, CHR 0x94] @ '' Reminder: Still Pending'',
      body = ''Pay rent'', data_taskId = ''t1'', data_taskTitle = ''Pay rent'',
      data_flag = IsFollowUp, priority = HIGH, seconds = 90240\<rparr>,
     \<lparr>title = [CHR 0xF0, CHR 0x9F, CHR 0x94, CHR 0x94] @ '' Reminder: Still Pending'',
      body = ''Pay rent'', data_taskId = ''t1'', data_taskTitle = ''Pay rent'',
      data_flag = IsFollowUp, priority = HIGH, seconds = 90360\<rparr>,
     \<lparr>title = [CHR 0xF0, CHR 0x9F, CHR 0x94, CHR 0x94] @ '' Reminder: Still Pending'',
      body = ''Pay rent'', data_taskId = ''t1'', data_taskTitle = ''Pay rent'',
      data_flag = IsFollowUp, priority = HIGH, seconds = 90480\<rparr>,
     \<lparr>title = [CHR 0xF0, CHR 0x9F, CHR 0x94, CHR 0x94] @ '' Reminder: Still Pending'',
      body = ''Pay rent'', data_taskId = ''t1'', data_taskTitle = ''Pay rent'',
      data_flag = IsFollowUp, priority = HIGH, seconds = 90600\<rparr>] \<and>
   length (issued (start 0)
      (snd (scheduleTaskReminder (fixedPlatform True 1000000) ''t1'' ''Pay rent'' 91000000
             (start 0)))) = 9"
  using lead_25h_nine_events [of "fixedPlatform True 1000000" "start 0" 91000000 "''t1''" "''Pay rent''"]
  by (simp add: fixedPlatform_def start_def)

text \<open>
  C3. A reminder whose instant is at or before the clock reading yields nothing:
  \<^verbatim>\<open>scheduleTaskReminder\<close> returns \<^verbatim>\<open>null\<close>, no request of any tier (advance, main,
  follow-up) reaches the scheduler, and the map is as before. The hypothesis speaks of
  the clock as read after the permission query, which is where the source reads it; when
  permission is missing the result is the same.
\<close>

theorem past_reminder_schedules_nothing:
  assumes "rd \<le> fst (newDate P (snd (getPermissionsAsync P (world s))))"
  shows "fst (scheduleTaskReminder P tid ttl rd s) = None \<and>
         issued s (snd (scheduleTaskReminder P tid ttl rd s)) = [] \<and>
         notificationMap (snd (scheduleTaskReminder P tid ttl rd s)) = notificationMap s"
proof -
  obtain b s1 where p: "checkNotificationPermission P s = (b, s1)"
    by (cases "checkNotificationPermission P s")
  obtain now s2 where d: "currentDate P s1 = (now, s2)"
    by (cases "currentDate P s1")
  have le: "rd \<le> now"
    using assms checkNotificationPermission_frame(4) [OF p] currentDate_frame(3) [OF d]
    by simp
  have t1: "trace s1 = trace s" using checkNotificationPermission_frame(1) [OF p] .
  have t2: "trace s2 = trace s" using currentDate_frame(1) [OF d] t1 by simp
  have r: "scheduleTaskReminder P tid ttl rd s = (None, if b then s2 else s1)"
    using p d le
    by (cases b) (simp_all add: scheduleTaskReminder_denied scheduleTaskReminder_past)
  have "issued s (snd (scheduleTaskReminder P tid ttl rd s)) = []"
    using r t1 t2 by (simp add: issued_def)
  moreover have "fst (scheduleTaskReminder P tid ttl rd s) = None"
    using r by simp
  ultimately show ?thesis by simp
qed

theorem past_reminder_schedules_nothing_witness:
  "(4000::int) \<le> fst (newDate (fixedPlatform True 5000)
       (snd (getPermissionsAsync (fixedPlatform True 5000) (world (start 0))))) \<and>
   fst (scheduleTaskReminder (fixedPlatform True 5000) ''t1'' ''Pay rent'' 4000 (start 0)) = None \<and>
   issued (start 0)
     (snd (scheduleTaskReminder (fixedPlatform True 5000) ''t1'' ''Pay rent'' 4000 (start 0))) = []"
  using past_reminder_schedules_nothing
          [of 4000 "fixedPlatform True 5000" "start 0" "''t1''" "''Pay rent''"]
  by (simp add: fixedPlatform_def start_def)

text \<open>
  C4, as the source has it. All schedule calls of one task sit in one \<^verbatim>\<open>try\<close> block.
  When a call for a task is rejected, it is the last call made for that task in the pass:
  the calls before it were accepted, none is made after it, the map is left as it was and
  the task has no entry (the identifiers returned before the failure are dropped). The
  counterexample is a run in which the second of nine requests is rejected: the other
  seven are never attempted, although the scheduler would have accepted them, and nothing
  is recorded.
\<close>

theorem rejected_call_ends_task:
  assumes cin: "c \<in> set (issued s (scheduleStep P t s))" and rej: "\<not> accepted c"
  shows "c = last (issued s (scheduleStep P t s)) \<and>
         (\<forall>c'\<in>set (butlast (issued s (scheduleStep P t s))). accepted c') \<and>
         notificationMap (scheduleStep P t s) = notificationMap s \<and>
         \<not> truthy (map_of (notificationMap (scheduleStep P t s)) (taskId t))"
proof (cases P t s rule: scheduleStep_cases)
  case skip
  then show ?thesis using cin by simp
next
  case (run rd)
  let ?r = "scheduleTaskReminder P (taskId t) (taskTitle t) rd s"
  from scheduleTaskReminder_ext [of P "taskId t" "taskTitle t" rd s] obtain ext where
    e: "trace (snd ?r) = trace s @ ext"
       "\<forall>c\<in>set (butlast ext). accepted c"
       "fst ?r \<noteq> None \<longrightarrow> (\<forall>c\<in>set ext. accepted c)"
    by blast
  have i: "issued s (scheduleStep P t s) = ext"
    using scheduleStep_trace [OF run, of P] e(1) by simp
  have cin': "c \<in> set ext" using cin i by simp
  have none: "fst ?r = None" using e(3) cin' rej by blast
  have m: "notificationMap (scheduleStep P t s) = notificationMap s"
    using scheduleStep_map [OF run, of P] none by simp
  have "c = last ext" using last_of_rejected [OF cin' e(2) rej] .
  then show ?thesis using i e(2) m run(3) by simp
qed

theorem rejected_call_ends_task_witness:
  "last (issued (start rejectSecond)
      (scheduleStep (scriptedPlatform True 1000000) dayAheadTask (start rejectSecond))) =
     ScheduleCall (advanceRequest ''t3'' ''File taxes''
        \<lparr>n_seconds = 46800, n_title = [CHR 0xE2, CHR 0x8F, CHR 0xB3] @ '' Task in 12 Hours'',
         n_body = ''File taxes is coming up in 12 hours''\<rparr>) None \<and>
   notificationMap (scheduleStep (scriptedPlatform True 1000000) dayAheadTask
      (start rejectSecond)) = []"
proof -
  have t: "trace (scheduleStep (scriptedPlatform True 1000000) dayAheadTask (start rejectSecond)) =
     [ScheduleCall (advanceRequest ''t3'' ''File taxes''
        \<lparr>n_seconds = 3600,
         n_title = [CHR 0xF0, CHR 0x9F, CHR 0x93, CHR 0x85] @ '' Upcoming Task Tomorrow'',
         n_body = ''File taxes is scheduled for tomorrow''\<rparr>) (Some ''a''),
      ScheduleCall (advanceRequest ''t3'' ''File taxes''
        \<lparr>n_seconds = 46800, n_title = [CHR 0xE2, CHR 0x8F, CHR 0xB3] @ '' Task in 12 Hours'',
         n_body = ''File taxes is coming up in 12 hours''\<rparr>) None]"
    by (simp add: dayAheadTask_def rejectSecond_def start_def scheduleStep_def
          scheduleTaskReminder_def scriptedPlatform_def checkNotificationPermission_def
          currentDate_def scheduleNotification_def advanceNotifications_def Let_def)
  show ?thesis
    using rejected_call_ends_task [of "ScheduleCall (advanceRequest ''t3'' ''File taxes''
        \<lparr>n_seconds = 46800, n_title = [CHR 0xE2, CHR 0x8F, CHR 0xB3] @ '' Task in 12 Hours'',
         n_body = ''File taxes is coming up in 12 hours''\<rparr>) None"
        "start rejectSecond" "scriptedPlatform True 1000000" dayAheadTask]
    by (simp add: issued_def t) (simp add: start_def)
qed

theorem rejected_call_skips_siblings_counterexample:
  "map seconds (requestsOf (issued (start rejectSecond)
      (syncNotifications (scriptedPlatform True 1000000) [dayAheadTask] (start rejectSecond)))) =
     [1 * 3600, 13 * 3600] \<and>
   notificationMap
     (syncNotifications (scriptedPlatform True 1000000) [dayAheadTask] (start rejectSecond)) = [] \<and>
   world
     (syncNotifications (scriptedPlatform True 1000000) [dayAheadTask] (start rejectSecond)) =
     [Some ''b'', Some ''c'', Some ''d'', Some ''e'', Some ''f'', Some ''g'', Some ''h'']"
  by (simp add: dayAheadTask_def rejectSecond_def start_def syncNotifications_def stale_def
        scheduleStep_def issued_def advanceRequest_def
        scheduleTaskReminder_def scriptedPlatform_def checkNotificationPermission_def
        currentDate_def scheduleNotification_def advanceNotifications_def Let_def)

text \<open>
  C6, at the input where the source departs from it. The reminder is 500 ms after the
  clock reading: the guard \<^verbatim>\<open>reminderDate <= now\<close> lets it pass, \<^verbatim>\<open>Math.floor\<close> makes
  \<^verbatim>\<open>secondsUntilReminder\<close> zero, and the main reminder is handed to the scheduler with
  an offset of 0 seconds.
\<close>

theorem subsecond_lead_main_offset_zero:
  "map seconds (requestsOf (issued (start 0)
      (snd (scheduleTaskReminder (fixedPlatform True 1000000) ''t1'' ''Pay rent'' 1000500
             (start 0))))) = [0, 120, 240, 360, 480, 600] \<and>
   fst (scheduleTaskReminder (fixedPlatform True 1000000) ''t1'' ''Pay rent'' 1000500
             (start 0)) = Some (handle 0)"
  by (simp add: start_def scheduleTaskReminder_def fixedPlatform_def
        checkNotificationPermission_def currentDate_def scheduleNotification_def
        advanceNotifications_def followUpIntervals_def Let_def issued_def
        mainRequest_def followUpRequest_def)

subsection \<open>The reconciliation pass\<close>

text \<open>
  C2, at an input where the source departs from it. A task whose reminder is three hours
  ahead is scheduled from a fresh state: the scheduler returns six identifiers, one for
  the main reminder and five for the follow-ups. \<^verbatim>\<open>scheduleTaskReminder\<close> keeps the
  result of the main call only and the calls in the two loops drop theirs, so the map
  records the first identifier alone. When the next pass gets a collection without the
  task, one cancel request is made, for that identifier: the five follow-ups stay
  scheduled for a task that is gone, although the hook is documented to cancel the
  notifications of deleted tasks.
\<close>

theorem deleted_task_leaves_follow_ups_scheduled:
  "returnedHandles (issued (start 0)
      (syncNotifications (fixedPlatform True 1000000) [demoTask] (start 0))) =
     [''n'', ''n+'', ''n++'', ''n+++'', ''n++++'', ''n+++++''] \<and>
   notificationMap (syncNotifications (fixedPlatform True 1000000) [demoTask] (start 0)) =
     [(''t1'', ''n'')] \<and>
   issued (syncNotifications (fixedPlatform True 1000000) [demoTask] (start 0))
     (syncNotifications (fixedPlatform True 1000000) []
        (syncNotifications (fixedPlatform True 1000000) [demoTask] (start 0))) =
     [CancelCall ''t1'' ''n'']"
  by (simp add: demoTask_def start_def hasReminder_def syncNotifications_def
        scheduleStep_def stale_def scheduleTaskReminder_def fixedPlatform_def
        checkNotificationPermission_def currentDate_def scheduleNotification_def
        advanceNotifications_def followUpIntervals_def Let_def issued_def
        cancelReminder_def handle_def)

text \<open>
  C5, as the source has it. Take the state a first pass over \<open>ts\<close> ends in and run a
  second pass over the same collection, against any platform \<open>Q\<close> and world \<open>w\<close>.
  With unique task ids the second pass makes no cancel call, and each schedule call it
  makes is about a task with a reminder for which the first pass left no entry. When the
  first pass left an entry for every task with a reminder, the second pass makes no call
  at all and changes nothing. And a task with a reminder for which the first pass left no
  entry is tried again: when \<open>Q\<close> grants permission and its clock is before the reminder,
  the second pass makes a schedule call about the task. So idempotence does not hold for
  every collection; the counterexample is a run in which the scheduler rejects the
  request.
\<close>

theorem second_pass_idle:
  "(distinct (map taskId ts) \<longrightarrow>
      (\<forall>c\<in>set (issued ((syncNotifications P ts s)\<lparr>world := w\<rparr>)
                (syncNotifications Q ts ((syncNotifications P ts s)\<lparr>world := w\<rparr>))).
         isSchedule c \<and>
         (\<exists>t\<in>set ts. hasReminder t \<and> callTask c = taskId t \<and>
            \<not> truthy (map_of (notificationMap (syncNotifications P ts s)) (taskId t))))) \<and>
   ((\<forall>t\<in>set ts. hasReminder t \<longrightarrow>
        truthy (map_of (notificationMap (syncNotifications P ts s)) (taskId t))) \<longrightarrow>
      syncNotifications Q ts ((syncNotifications P ts s)\<lparr>world := w\<rparr>) =
        (syncNotifications P ts s)\<lparr>world := w\<rparr> \<and>
      issued ((syncNotifications P ts s)\<lparr>world := w\<rparr>)
        (syncNotifications Q ts ((syncNotifications P ts s)\<lparr>world := w\<rparr>)) = []) \<and>
   (distinct (map taskId ts) \<and> t \<in> set ts \<and> hasReminder t \<and> reminderTime t = Some rd \<and>
    \<not> truthy (map_of (notificationMap (syncNotifications P ts s)) (taskId t)) \<and>
    (\<forall>w'. fst (getPermissionsAsync Q w')) \<and> (\<forall>w'. fst (newDate Q w') < rd) \<longrightarrow>
      (\<exists>c\<in>set (issued ((syncNotifications P ts s)\<lparr>world := w\<rparr>)
                (syncNotifications Q ts ((syncNotifications P ts s)\<lparr>world := w\<rparr>))).
         isSchedule c \<and> callTask c = taskId t))"
proof -
  let ?s1 = "(syncNotifications P ts s)\<lparr>world := w\<rparr>"
  have b: "\<forall>e\<in>set (notificationMap ?s1). \<not> stale ts (fst e)"
    using syncNotifications_fresh [of P ts s] by simp
  have A: "\<forall>c\<in>set (issued ?s1 (syncNotifications Q ts ?s1)).
         isSchedule c \<and>
         (\<exists>t\<in>set ts. hasReminder t \<and> callTask c = taskId t \<and>
            \<not> truthy (map_of (notificationMap (syncNotifications P ts s)) (taskId t)))"
    if dist: "distinct (map taskId ts)"
  proof -
    from syncNotifications_ext [of Q ts ?s1] obtain ext where
      e: "issued ?s1 (syncNotifications Q ts ?s1) =
            ext @ map (\<lambda>e. CancelCall (fst e) (snd e))
               (filter (\<lambda>e. stale ts (fst e)) (notificationMap (scheduleLoop Q ts ?s1)))"
         "\<forall>c\<in>set ext. isSchedule c \<and> (\<exists>t\<in>set ts. hasReminder t \<and> callTask c = taskId t) \<and>
            \<not> truthy (map_of (notificationMap ?s1) (callTask c))"
      by blast
    have i: "issued ?s1 (syncNotifications Q ts ?s1) = ext"
      using e(1) syncNotifications_no_cancel [OF dist b, of Q] by simp
    have "isSchedule c \<and>
         (\<exists>t\<in>set ts. hasReminder t \<and> callTask c = taskId t \<and>
            \<not> truthy (map_of (notificationMap (syncNotifications P ts s)) (taskId t)))"
      if cin: "c \<in> set ext" for c
    proof -
      from e(2) cin obtain t where
        t: "isSchedule c" "t \<in> set ts" "hasReminder t" "callTask c = taskId t"
           "\<not> truthy (map_of (notificationMap ?s1) (callTask c))"
        by blast
      have "\<not> truthy (map_of (notificationMap (syncNotifications P ts s)) (taskId t))"
        using t(4,5) by simp
      then show ?thesis using t by blast
    qed
    then show ?thesis unfolding i by blast
  qed
  have B: "syncNotifications Q ts ?s1 = ?s1 \<and> issued ?s1 (syncNotifications Q ts ?s1) = []"
    if all: "\<forall>t\<in>set ts. hasReminder t \<longrightarrow>
        truthy (map_of (notificationMap (syncNotifications P ts s)) (taskId t))"
  proof -
    have a: "\<forall>t\<in>set ts. hasReminder t \<longrightarrow> truthy (map_of (notificationMap ?s1) (taskId t))"
      using all by simp
    have "syncNotifications Q ts ?s1 = ?s1" using syncNotifications_idle [OF a b] .
    then show ?thesis by simp
  qed
  have C: "\<exists>c\<in>set (issued ?s1 (syncNotifications Q ts ?s1)). isSchedule c \<and> callTask c = taskId t"
    if h: "distinct (map taskId ts) \<and> t \<in> set ts \<and> hasReminder t \<and> reminderTime t = Some rd \<and>
      \<not> truthy (map_of (notificationMap (syncNotifications P ts s)) (taskId t)) \<and>
      (\<forall>w'. fst (getPermissionsAsync Q w')) \<and> (\<forall>w'. fst (newDate Q w') < rd)"
  proof -
    from h have mem: "t \<in> set ts" and dist: "distinct (map taskId ts)"
      and act: "hasReminder t" and rt: "reminderTime t = Some rd"
      and granted: "\<forall>w'. fst (getPermissionsAsync Q w')"
      and fut: "\<forall>w'. fst (newDate Q w') < rd"
      by simp_all
    have k: "\<not> truthy (map_of (notificationMap ?s1) (taskId t))" using h by simp
    show ?thesis using syncNotifications_attempts [OF mem dist act rt k granted fut] .
  qed
  show ?thesis using A B C by blast
qed

theorem second_pass_idle_witness:
  "issued ((syncNotifications (fixedPlatform True 1000000) [demoTask] (start 0))\<lparr>world := 6\<rparr>)
     (syncNotifications (fixedPlatform True 1000000) [demoTask]
        ((syncNotifications (fixedPlatform True 1000000) [demoTask] (start 0))\<lparr>world := 6\<rparr>)) = [] \<and>
   (\<exists>c\<in>set (issued ((syncNotifications (fixedPlatform False 1000000) [demoTask] (start 0))\<lparr>world := 0\<rparr>)
       (syncNotifications (fixedPlatform True 1000000) [demoTask]
          ((syncNotifications (fixedPlatform False 1000000) [demoTask] (start 0))\<lparr>world := 0\<rparr>))).
      isSchedule c \<and> callTask c = ''t1'')"
proof -
  have m: "notificationMap (syncNotifications (fixedPlatform True 1000000) [demoTask] (start 0)) =
          [(''t1'', handle 0)]"
    by (simp add: demoTask_def start_def hasReminder_def syncNotifications_def
          scheduleStep_def stale_def scheduleTaskReminder_def fixedPlatform_def
          checkNotificationPermission_def currentDate_def scheduleNotification_def
          advanceNotifications_def followUpIntervals_def Let_def handle_def)
  have 1: "issued ((syncNotifications (fixedPlatform True 1000000) [demoTask] (start 0))\<lparr>world := 6\<rparr>)
     (syncNotifications (fixedPlatform True 1000000) [demoTask]
        ((syncNotifications (fixedPlatform True 1000000) [demoTask] (start 0))\<lparr>world := 6\<rparr>)) = []"
    using m second_pass_idle [where ts = "[demoTask]" and P = "fixedPlatform True 1000000"
                and s = "start 0" and w = 6 and Q = "fixedPlatform True 1000000"]
    by (simp add: demoTask_def hasReminder_def handle_def)
  have d: "syncNotifications (fixedPlatform False 1000000) [demoTask] (start 0) = start 0"
    by (simp add: demoTask_def start_def syncNotifications_def scheduleStep_def
          scheduleTaskReminder_def checkNotificationPermission_def fixedPlatform_def)
  have b: "distinct (map taskId [demoTask])" "demoTask \<in> set [demoTask]" "hasReminder demoTask"
    "reminderTime demoTask = Some 11800000"
    "\<not> truthy (map_of (notificationMap (start (0::nat))) (taskId demoTask))"
    by (simp_all add: demoTask_def hasReminder_def start_def)
  have c: "\<forall>w. fst (getPermissionsAsync (fixedPlatform True 1000000) w)"
    "\<forall>w. fst (newDate (fixedPlatform True 1000000) w) < 11800000"
    by (simp_all add: fixedPlatform_def)
  have t: "taskId demoTask = ''t1''" by (simp add: demoTask_def)
  have 2: "\<exists>c\<in>set (issued ((syncNotifications (fixedPlatform False 1000000) [demoTask] (start 0))\<lparr>world := 0\<rparr>)
       (syncNotifications (fixedPlatform True 1000000) [demoTask]
          ((syncNotifications (fixedPlatform False 1000000) [demoTask] (start 0))\<lparr>world := 0\<rparr>))).
      isSchedule c \<and> callTask c = ''t1''"
    using second_pass_idle [where ts = "[demoTask]" and P = "fixedPlatform False 1000000"
                and s = "start 0" and w = 0 and Q = "fixedPlatform True 1000000"
                and t = demoTask and rd = 11800000] b c
    unfolding d t by blast
  show ?thesis using 1 2 by simp
qed

text \<open>The scheduler rejects every request (its script is empty). The first pass makes one
  schedule call for the task and records nothing; the second pass, on the same collection
  and the same (empty) map, makes the call again.\<close>

theorem second_pass_retries_counterexample:
  "issued (syncNotifications (scriptedPlatform True 1000000) [demoTask] (start []))
     (syncNotifications (scriptedPlatform True 1000000) [demoTask]
        (syncNotifications (scriptedPlatform True 1000000) [demoTask] (start []))) =
   [ScheduleCall (mainRequest ''t1'' ''Pay rent'' 10800) None]"
  by (simp add: demoTask_def start_def hasReminder_def syncNotifications_def
        scheduleStep_def stale_def scheduleTaskReminder_def scriptedPlatform_def
        checkNotificationPermission_def currentDate_def scheduleNotification_def
        advanceNotifications_def followUpIntervals_def Let_def issued_def)

text \<open>
  C7, as the source has it. A task of the collection has an entry \<open>h\<close> in the map and its
  reminder is switched off; task ids are unique. The pass over the collection with the
  task switched off ends in the very state the pass over the collection without the task
  ends in (same trace, same map, same world): the cancel request for \<open>h\<close> is made and
  the entry is removed. Every other task of the collection that has a reminder and an
  entry keeps its entry, the same as before the pass. (The entries of all other keys are
  also what the pass would have left had the task not been touched.) Other entries are
  not unchanged in general: the pass removes those of tasks that are gone or switched off
  and writes those of tasks scheduled for the first time, as the counterexample shows.
\<close>

theorem disabling_is_deleting:
  assumes dist: "distinct (map taskId (pre @ t # post))"
    and en: "reminderEnabled t"
    and key: "map_of (notificationMap s) (taskId t) = Some h" and h: "h \<noteq> []"
  shows "syncNotifications P (pre @ t\<lparr>reminderEnabled := False\<rparr> # post) s =
           syncNotifications P (pre @ post) s \<and>
         CancelCall (taskId t) h \<in>
           set (issued s (syncNotifications P (pre @ t\<lparr>reminderEnabled := False\<rparr> # post) s)) \<and>
         map_of (notificationMap
           (syncNotifications P (pre @ t\<lparr>reminderEnabled := False\<rparr> # post) s)) (taskId t) = None \<and>
         (\<forall>t'\<in>set (pre @ post). \<forall>h'.
            hasReminder t' \<and> map_of (notificationMap s) (taskId t') = Some h' \<and> h' \<noteq> [] \<longrightarrow>
            map_of (notificationMap
              (syncNotifications P (pre @ t\<lparr>reminderEnabled := False\<rparr> # post) s)) (taskId t') =
              Some h') \<and>
         (\<forall>k. k \<noteq> taskId t \<longrightarrow>
            map_of (notificationMap
              (syncNotifications P (pre @ t\<lparr>reminderEnabled := False\<rparr> # post) s)) k =
            map_of (notificationMap (syncNotifications P (pre @ t # post) s)) k)"
proof -
  let ?t' = "t\<lparr>reminderEnabled := False\<rparr>"
  let ?dis = "pre @ ?t' # post" and ?del = "pre @ post" and ?ts = "pre @ t # post"
  have off: "\<not> hasReminder ?t'" by (simp add: hasReminder_def)
  have tr: "truthy (map_of (notificationMap s) (taskId t))" using key h by simp
  have notin: "taskId t \<notin> taskId ` set pre" "taskId t \<notin> taskId ` set post"
    using dist by auto
  have loop_dis: "scheduleLoop P ?dis s = scheduleLoop P ?del s"
    using off by (simp add: scheduleLoop_append scheduleStep_skip)
  have "truthy (map_of (notificationMap (scheduleLoop P pre s)) (taskId t))"
    using scheduleLoop_map_of_truthy [OF tr, of P pre] tr by simp
  then have loop_ts: "scheduleLoop P ?ts s = scheduleLoop P ?del s"
    by (simp add: scheduleLoop_append scheduleStep_skip)
  have stale_t: "stale ?dis (taskId t)" "stale ?del (taskId t)"
    using notin off by (simp_all add: stale_append stale_Cons stale_absent)
  have stale_dis: "stale ?dis k = stale ?del k" for k
  proof (cases "k = taskId t")
    case True
    then show ?thesis using stale_t by simp
  next
    case False
    then show ?thesis using stale_drop_other [of k ?t' pre post] by simp
  qed
  have 1: "syncNotifications P ?dis s = syncNotifications P ?del s"
    by (simp add: syncNotifications_def loop_dis stale_dis)
  have entry: "map_of (notificationMap (scheduleLoop P ?dis s)) (taskId t) = Some h"
    using scheduleLoop_map_of_truthy [OF tr, of P ?dis] key by simp
  then have "(taskId t, h) \<in> set (notificationMap (scheduleLoop P ?dis s))"
    by (rule map_of_SomeD)
  then have "(taskId t, h) \<in>
      set (filter (\<lambda>e. stale ?dis (fst e)) (notificationMap (scheduleLoop P ?dis s)))"
    using stale_t(1) by simp
  then have "CancelCall (taskId t) h \<in> set (map (\<lambda>e. CancelCall (fst e) (snd e))
      (filter (\<lambda>e. stale ?dis (fst e)) (notificationMap (scheduleLoop P ?dis s))))"
    by force
  moreover from syncNotifications_ext [of P ?dis s] obtain ext where
    "issued s (syncNotifications P ?dis s) =
       ext @ map (\<lambda>e. CancelCall (fst e) (snd e))
               (filter (\<lambda>e. stale ?dis (fst e)) (notificationMap (scheduleLoop P ?dis s)))"
    by blast
  ultimately have 2: "CancelCall (taskId t) h \<in> set (issued s (syncNotifications P ?dis s))"
    by simp
  have 3: "map_of (notificationMap (syncNotifications P ?dis s)) (taskId t) = None"
    using stale_t(1) by (simp add: syncNotifications_map map_of_fresh)
  have 4: "map_of (notificationMap (syncNotifications P ?dis s)) k =
           map_of (notificationMap (syncNotifications P ?ts s)) k" if "k \<noteq> taskId t" for k
  proof -
    have "stale ?dis k = stale ?ts k"
      using that stale_drop_other [of k ?t' pre post] stale_drop_other [of k t pre post]
      by simp
    then show ?thesis
      by (simp add: syncNotifications_map map_of_fresh loop_dis loop_ts)
  qed
  have 5: "map_of (notificationMap (syncNotifications P ?dis s)) (taskId t') = Some h'"
    if t': "t' \<in> set ?del" and a: "hasReminder t'"
      and e: "map_of (notificationMap s) (taskId t') = Some h'" and ne: "h' \<noteq> []" for t' h'
  proof -
    have dd: "distinct (map taskId ?del)" using dist by simp
    have "\<not> stale ?del (taskId t')" using stale_find [OF dd t'] a by simp
    then have fresh: "\<not> stale ?dis (taskId t')" using stale_dis by simp
    have "truthy (map_of (notificationMap s) (taskId t'))" using e ne by simp
    then have "map_of (notificationMap (scheduleLoop P ?dis s)) (taskId t') = Some h'"
      using scheduleLoop_map_of_truthy [of s "taskId t'" P ?dis] e by simp
    then show ?thesis using fresh by (simp add: syncNotifications_map map_of_fresh)
  qed
  show ?thesis using 1 2 3 4 5 by blast
qed

theorem disabling_is_deleting_witness:
  "issued (start 0\<lparr>notificationMap := [(''t1'', ''a''), (''t2'', ''b'')]\<rparr>)
     (syncNotifications (fixedPlatform True 1000000)
        ([] @ demoTask\<lparr>reminderEnabled := False\<rparr> # [otherTask])
        (start 0\<lparr>notificationMap := [(''t1'', ''a''), (''t2'', ''b'')]\<rparr>)) =
     [CancelCall ''t1'' ''a''] \<and>
   notificationMap (syncNotifications (fixedPlatform True 1000000)
        ([] @ demoTask\<lparr>reminderEnabled := False\<rparr> # [otherTask])
        (start 0\<lparr>notificationMap := [(''t1'', ''a''), (''t2'', ''b'')]\<rparr>)) = [(''t2'', ''b'')] \<and>
   syncNotifications (fixedPlatform True 1000000)
        ([] @ demoTask\<lparr>reminderEnabled := False\<rparr> # [otherTask])
        (start 0\<lparr>notificationMap := [(''t1'', ''a''), (''t2'', ''b'')]\<rparr>) =
   syncNotifications (fixedPlatform True 1000000) ([] @ [otherTask])
        (start 0\<lparr>notificationMap := [(''t1'', ''a''), (''t2'', ''b'')]\<rparr>)"
  using disabling_is_deleting [of "[]" demoTask "[otherTask]"
               "start 0\<lparr>notificationMap := [(''t1'', ''a''), (''t2'', ''b'')]\<rparr>" "''a''"
               "fixedPlatform True 1000000"]
  by (simp add: demoTask_def otherTask_def start_def hasReminder_def syncNotifications_def
        scheduleStep_def stale_def issued_def cancelReminder_def fixedPlatform_def)

text \<open>The map holds entries for \<open>t1\<close> and \<open>t9\<close>; the collection has \<open>t1\<close> with its
  reminder switched off and a task \<open>t2\<close> with a reminder and no entry; no task \<open>t9\<close>.
  The pass that cancels for \<open>t1\<close> also removes the entry of \<open>t9\<close> and writes one for
  \<open>t2\<close>: entries of other tasks are changed by that pass.\<close>

theorem disabling_pass_changes_other_entries_counterexample:
  "map_of (notificationMap (start (0::nat)\<lparr>notificationMap := [(''t1'', ''a''), (''t9'', ''z'')]\<rparr>))
      ''t1'' = Some ''a'' \<and>
   map_of (notificationMap (start (0::nat)\<lparr>notificationMap := [(''t1'', ''a''), (''t9'', ''z'')]\<rparr>))
      ''t9'' = Some ''z'' \<and>
   map_of (notificationMap (start (0::nat)\<lparr>notificationMap := [(''t1'', ''a''), (''t9'', ''z'')]\<rparr>))
      ''t2'' = None \<and>
   notificationMap (syncNotifications (fixedPlatform True 1000000)
        [demoTask\<lparr>reminderEnabled := False\<rparr>, otherTask]
        (start 0\<lparr>notificationMap := [(''t1'', ''a''), (''t9'', ''z'')]\<rparr>)) = [(''t2'', ''n'')]"
  by (simp add: demoTask_def otherTask_def start_def hasReminder_def syncNotifications_def
        scheduleStep_def stale_def scheduleTaskReminder_def fixedPlatform_def
        checkNotificationPermission_def currentDate_def scheduleNotification_def
        advanceNotifications_def followUpIntervals_def Let_def cancelReminder_def handle_def)

text \<open>
  C8. A task of the collection that has a reminder and already has an entry in the map is
  left alone by a pass: its entry is the same afterwards, and no call of the pass, schedule
  or cancel, is about it. Nothing is asked of the task's reminder time, so this holds
  also when the time was changed after the entry was made. Task ids are unique in the
  collection (they are UUIDs), and the entry is a non-empty identifier, as every entry
  the pass writes is.
\<close>

theorem scheduled_task_left_alone:
  assumes mem: "t \<in> set ts" and dist: "distinct (map taskId ts)"
    and act: "hasReminder t"
    and key: "map_of (notificationMap s) (taskId t) = Some h" and h: "h \<noteq> []"
  shows "map_of (notificationMap (syncNotifications P ts s)) (taskId t) = Some h \<and>
         (\<forall>c\<in>set (issued s (syncNotifications P ts s)). callTask c \<noteq> taskId t)"
proof -
  have tr: "truthy (map_of (notificationMap s) (taskId t))" using key h by simp
  have fresh: "\<not> stale ts (taskId t)" using stale_find [OF dist mem] act by simp
  have "map_of (notificationMap (scheduleLoop P ts s)) (taskId t) = Some h"
    using scheduleLoop_map_of_truthy [OF tr] key by simp
  then have m: "map_of (notificationMap (syncNotifications P ts s)) (taskId t) = Some h"
    using fresh by (simp add: syncNotifications_map map_of_fresh)
  from syncNotifications_ext [of P ts s] obtain ext where
    e: "issued s (syncNotifications P ts s) =
          ext @ map (\<lambda>e. CancelCall (fst e) (snd e))
               (filter (\<lambda>e. stale ts (fst e)) (notificationMap (scheduleLoop P ts s)))"
       "\<forall>c\<in>set ext. \<not> truthy (map_of (notificationMap s) (callTask c))"
    by blast
  have "callTask c \<noteq> taskId t" if cin: "c \<in> set (issued s (syncNotifications P ts s))" for c
  proof (cases "c \<in> set ext")
    case True
    then show ?thesis using e(2) tr by auto
  next
    case False
    then obtain k h' where "c = CancelCall k h'" "stale ts k"
      using cin e(1) by auto
    then show ?thesis using fresh by auto
  qed
  then show ?thesis using m by blast
qed

theorem scheduled_task_left_alone_witness:
  "map_of (notificationMap (syncNotifications (fixedPlatform True 1000000) [demoTask]
       (start 0\<lparr>notificationMap := [(''t1'', ''n'')]\<rparr>))) ''t1'' = Some ''n'' \<and>
   issued (start 0\<lparr>notificationMap := [(''t1'', ''n'')]\<rparr>)
     (syncNotifications (fixedPlatform True 1000000) [demoTask]
       (start 0\<lparr>notificationMap := [(''t1'', ''n'')]\<rparr>)) = []"
  using scheduled_task_left_alone
          [of demoTask "[demoTask]" "start 0\<lparr>notificationMap := [(''t1'', ''n'')]\<rparr>"
              "''n''" "fixedPlatform True 1000000"]
  by (simp add: demoTask_def start_def hasReminder_def syncNotifications_def
        scheduleStep_def stale_def issued_def)

text \<open>
  C9. On a platform that does not grant permission, a pass makes no schedule call, and a
  task with a reminder that had no entry has none afterwards. Since the entry is absent,
  a later pass on a platform \<open>Q\<close> that grants permission (and whose clock is before the
  reminder) makes schedule calls for the task.
\<close>

theorem permission_denied_pass:
  assumes denied: "\<forall>w. \<not> fst (getPermissionsAsync P w)"
    and mem: "t \<in> set ts" and dist: "distinct (map taskId ts)"
    and act: "hasReminder t" and rt: "reminderTime t = Some rd"
    and key: "map_of (notificationMap s) (taskId t) = None"
    and granted: "\<forall>w. fst (getPermissionsAsync Q w)"
    and fut: "\<forall>w. fst (newDate Q w) < rd"
  shows "(\<forall>c\<in>set (issued s (syncNotifications P ts s)). \<not> isSchedule c) \<and>
         map_of (notificationMap (syncNotifications P ts s)) (taskId t) = None \<and>
         (\<exists>c\<in>set (issued ((syncNotifications P ts s)\<lparr>world := w\<rparr>)
                   (syncNotifications Q ts ((syncNotifications P ts s)\<lparr>world := w\<rparr>))).
            isSchedule c \<and> callTask c = taskId t)"
proof -
  have l: "trace (scheduleLoop P ts s) = trace s"
          "notificationMap (scheduleLoop P ts s) = notificationMap s"
    using scheduleLoop_denied [OF denied, of ts s] by simp_all
  have "trace (syncNotifications P ts s) =
      trace s @ map (\<lambda>e. CancelCall (fst e) (snd e))
               (filter (\<lambda>e. stale ts (fst e)) (notificationMap s))"
    using l by (simp add: syncNotifications_trace)
  then have "issued s (syncNotifications P ts s) =
      map (\<lambda>e. CancelCall (fst e) (snd e)) (filter (\<lambda>e. stale ts (fst e)) (notificationMap s))"
    by simp
  then have 1: "\<forall>c\<in>set (issued s (syncNotifications P ts s)). \<not> isSchedule c" by auto
  have 2: "map_of (notificationMap (syncNotifications P ts s)) (taskId t) = None"
    using key l(2) by (simp add: syncNotifications_map map_of_fresh)
  let ?s1 = "(syncNotifications P ts s)\<lparr>world := w\<rparr>"
  have k1: "\<not> truthy (map_of (notificationMap ?s1) (taskId t))" using 2 by simp
  have 3: "\<exists>c\<in>set (issued ?s1 (syncNotifications Q ts ?s1)). isSchedule c \<and> callTask c = taskId t"
    using syncNotifications_attempts [OF mem dist act rt k1 granted fut] .
  show ?thesis using 1 2 3 by blast
qed

theorem permission_denied_pass_witness:
  "issued (start 0) (syncNotifications (fixedPlatform False 1000000) [demoTask] (start 0)) = [] \<and>
   notificationMap (syncNotifications (fixedPlatform False 1000000) [demoTask] (start 0)) = [] \<and>
   (\<exists>c\<in>set (issued ((syncNotifications (fixedPlatform False 1000000) [demoTask] (start 0))\<lparr>world := 0\<rparr>)
               (syncNotifications (fixedPlatform True 1000000) [demoTask]
                  ((syncNotifications (fixedPlatform False 1000000) [demoTask] (start 0))\<lparr>world := 0\<rparr>))).
       isSchedule c \<and> callTask c = ''t1'')"
proof -
  have a: "\<forall>w. \<not> fst (getPermissionsAsync (fixedPlatform False 1000000) w)"
    by (simp add: fixedPlatform_def)
  have b: "demoTask \<in> set [demoTask]" "distinct (map taskId [demoTask])" "hasReminder demoTask"
    "reminderTime demoTask = Some 11800000"
    "map_of (notificationMap (start (0::nat))) (taskId demoTask) = None"
    by (simp_all add: demoTask_def hasReminder_def start_def)
  have c: "\<forall>w. fst (getPermissionsAsync (fixedPlatform True 1000000) w)"
    "\<forall>w. fst (newDate (fixedPlatform True 1000000) w) < 11800000"
    by (simp_all add: fixedPlatform_def)
  have s: "syncNotifications (fixedPlatform False 1000000) [demoTask] (start 0) = start 0"
    by (simp add: demoTask_def start_def syncNotifications_def scheduleStep_def
          scheduleTaskReminder_def checkNotificationPermission_def fixedPlatform_def)
  show ?thesis
    using permission_denied_pass [OF a b c, of 0] unfolding s
    by (simp add: demoTask_def start_def issued_def)
qed

text \<open>
  C10, as the source has it. \<^verbatim>\<open>clearNotificationMappings\<close> empties the map and does
  nothing else: the trace and the world are as before, so no cancel request is made and
  what was scheduled stays scheduled. The next pass over a collection with unique ids
  makes no cancel call. For a task of the collection whose reminder is ahead of the clock,
  on a platform that grants permission and accepts every request, the schedule calls of
  that pass about the task are its whole event list again, whether or not the task had
  an entry before the clearing, and a new entry is written. For a task whose reminder is
  not ahead of the clock the pass makes no call about it and writes no entry: the guard
  \<^verbatim>\<open>reminderDate <= now\<close> applies to it as to any new task.
\<close>

theorem clearing_forgets_without_cancelling:
  "trace (clearNotificationMappings s) = trace s \<and>
   world (clearNotificationMappings s) = world s \<and>
   notificationMap (clearNotificationMappings s) = [] \<and>
   (distinct (map taskId ts) \<longrightarrow>
      (\<forall>c\<in>set (issued (clearNotificationMappings s)
                (syncNotifications P ts (clearNotificationMappings s))). isSchedule c)) \<and>
   (distinct (map taskId ts) \<and> t \<in> set ts \<and> hasReminder t \<and> reminderTime t = Some rd \<and>
    (\<forall>w. fst (getPermissionsAsync P w)) \<and> (\<forall>w. fst (newDate P w) < rd) \<and>
    (\<forall>r w. \<exists>h. fst (scheduleNotificationAsync P r w) = Some h \<and> h \<noteq> []) \<longrightarrow>
      (\<exists>w0 h.
         requestsOf (filter (\<lambda>c. callTask c = taskId t)
           (issued (clearNotificationMappings s)
              (syncNotifications P ts (clearNotificationMappings s)))) =
           reminderRequests (taskId t) (taskTitle t) ((rd - fst (newDate P w0)) div 1000) \<and>
         map_of (notificationMap (syncNotifications P ts (clearNotificationMappings s)))
           (taskId t) = Some h)) \<and>
   (distinct (map taskId ts) \<and> t \<in> set ts \<and> reminderTime t = Some rd \<and>
    (\<forall>w. rd \<le> fst (newDate P w)) \<longrightarrow>
      (\<forall>c\<in>set (issued (clearNotificationMappings s)
                (syncNotifications P ts (clearNotificationMappings s))). callTask c \<noteq> taskId t) \<and>
      map_of (notificationMap (syncNotifications P ts (clearNotificationMappings s)))
        (taskId t) = None)"
proof -
  let ?s0 = "clearNotificationMappings s"
  have c: "trace ?s0 = trace s" "world ?s0 = world s" "notificationMap ?s0 = []"
    by (simp_all add: clearNotificationMappings_def)
  have nocancel: "\<forall>c\<in>set (issued ?s0 (syncNotifications P ts ?s0)). isSchedule c"
    if dist: "distinct (map taskId ts)"
  proof -
    from syncNotifications_ext [of P ts ?s0] obtain ext where
      e: "issued ?s0 (syncNotifications P ts ?s0) =
            ext @ map (\<lambda>e. CancelCall (fst e) (snd e))
                 (filter (\<lambda>e. stale ts (fst e)) (notificationMap (scheduleLoop P ts ?s0)))"
         "\<forall>c\<in>set ext. isSchedule c"
      by blast
    have "\<forall>e\<in>set (notificationMap ?s0). \<not> stale ts (fst e)" using c(3) by simp
    then have "filter (\<lambda>e. stale ts (fst e)) (notificationMap (scheduleLoop P ts ?s0)) = []"
      using syncNotifications_no_cancel [OF dist] by blast
    then show ?thesis using e by simp
  qed
  have again: "\<exists>w0 h.
         requestsOf (filter (\<lambda>c. callTask c = taskId t)
           (issued ?s0 (syncNotifications P ts ?s0))) =
           reminderRequests (taskId t) (taskTitle t) ((rd - fst (newDate P w0)) div 1000) \<and>
         map_of (notificationMap (syncNotifications P ts ?s0)) (taskId t) = Some h"
    if h: "distinct (map taskId ts) \<and> t \<in> set ts \<and> hasReminder t \<and> reminderTime t = Some rd \<and>
      (\<forall>w. fst (getPermissionsAsync P w)) \<and> (\<forall>w. fst (newDate P w) < rd) \<and>
      (\<forall>r w. \<exists>h. fst (scheduleNotificationAsync P r w) = Some h \<and> h \<noteq> [])"
  proof -
    have k: "map_of (notificationMap ?s0) (taskId t) = None" using c(3) by simp
    from h have mem: "t \<in> set ts" and dist: "distinct (map taskId ts)"
      and act: "hasReminder t" and rt: "reminderTime t = Some rd"
      and granted: "\<forall>w. fst (getPermissionsAsync P w)"
      and fut: "\<forall>w. fst (newDate P w) < rd"
      and acc: "\<forall>r w. \<exists>h. fst (scheduleNotificationAsync P r w) = Some h \<and> h \<noteq> []"
      by simp_all
    from syncNotifications_first_pass [OF mem dist act rt k granted fut acc]
    show ?thesis by blast
  qed
  have past: "(\<forall>c\<in>set (issued ?s0 (syncNotifications P ts ?s0)). callTask c \<noteq> taskId t) \<and>
      map_of (notificationMap (syncNotifications P ts ?s0)) (taskId t) = None"
    if h: "distinct (map taskId ts) \<and> t \<in> set ts \<and> reminderTime t = Some rd \<and>
      (\<forall>w. rd \<le> fst (newDate P w))"
  proof -
    from h have mem: "t \<in> set ts" and dist: "distinct (map taskId ts)"
      and rt: "reminderTime t = Some rd" and p: "\<forall>w. rd \<le> fst (newDate P w)"
      by simp_all
    have k: "map_of (notificationMap ?s0) (taskId t) = None" using c(3) by simp
    from syncNotifications_past [OF mem dist rt p, of ?s0] k nocancel [OF dist]
    show ?thesis by blast
  qed
  show ?thesis using c nocancel again past by blast
qed

theorem clearing_forgets_without_cancelling_witness:
  "trace (clearNotificationMappings (start (0::nat)\<lparr>notificationMap := [(''t1'', ''n'')]\<rparr>)) = [] \<and>
   notificationMap
     (clearNotificationMappings (start (0::nat)\<lparr>notificationMap := [(''t1'', ''n'')]\<rparr>)) = [] \<and>
   (\<exists>h. requestsOf (filter (\<lambda>c. callTask c = ''t1'')
           (issued (clearNotificationMappings (start 0\<lparr>notificationMap := [(''t1'', ''n'')]\<rparr>))
              (syncNotifications (fixedPlatform True 1000000) [demoTask]
                 (clearNotificationMappings (start 0\<lparr>notificationMap := [(''t1'', ''n'')]\<rparr>))))) =
         [\<lparr>title = [CHR 0xE2, CHR 0x8F, CHR 0xB0] @ '' Task Reminder - NOW'', body = ''Pay rent'',
            data_taskId = ''t1'', data_taskTitle = ''Pay rent'', data_flag = IsMainReminder,
            priority = HIGH, seconds = 10800\<rparr>,
          \<lparr>title = [CHR 0xF0, CHR 0x9F, CHR 0x94, CHR 0x94] @ '' Reminder: Still Pending'',
            body = ''Pay rent'', data_taskId = ''t1'', data_taskTitle = ''Pay rent'',
            data_flag = IsFollowUp, priority = HIGH, seconds = 10920\<rparr>,
          \<lparr>title = [CHR 0xF0, CHR 0x9F, CHR 0x94, CHR 0x94] @ '' Reminder: Still Pending'',
            body = ''Pay rent'', data_taskId = ''t1'', data_taskTitle = ''Pay rent'',
            data_flag = IsFollowUp, priority = HIGH, seconds = 11040\<rparr>,
          \<lparr>title = [CHR 0xF0, CHR 0x9F, CHR 0x94, CHR 0x94] @ '' Reminder: Still Pending'',
            body = ''Pay rent'', data_taskId = ''t1'', data_taskTitle = ''Pay rent'',
            data_flag = IsFollowUp, priority = HIGH, seconds = 11160\<rparr>,
          \<lparr>title = [CHR 0xF0, CHR 0x9F, CHR 0x94, CHR 0x94] @ '' Reminder: Still Pending'',
            body = ''Pay rent'', data_taskId = ''t1'', data_taskTitle = ''Pay rent'',
            data_flag = IsFollowUp, priority = HIGH, seconds = 11280\<rparr>,
          \<lparr>title = [CHR 0xF0, CHR 0x9F, CHR 0x94, CHR 0x94] @ '' Reminder: Still Pending'',
            body = ''Pay rent'', data_taskId = ''t1'', data_taskTitle = ''Pay rent'',
            data_flag = IsFollowUp, priority = HIGH, seconds = 11400\<rparr>] \<and>
       map_of (notificationMap (syncNotifications (fixedPlatform True 1000000) [demoTask]
          (clearNotificationMappings (start 0\<lparr>notificationMap := [(''t1'', ''n'')]\<rparr>)))) ''t1'' =
         Some h)"
proof -
  have b: "distinct (map taskId [demoTask])" "demoTask \<in> set [demoTask]" "hasReminder demoTask"
    "reminderTime demoTask = Some 11800000"
    by (simp_all add: demoTask_def hasReminder_def)
  have c: "\<forall>w. fst (getPermissionsAsync (fixedPlatform True 1000000) w)"
    "\<forall>w. fst (newDate (fixedPlatform True 1000000) w) < 11800000"
    "\<forall>r w. \<exists>h. fst (scheduleNotificationAsync (fixedPlatform True 1000000) r w) = Some h \<and> h \<noteq> []"
    by (simp_all add: fixedPlatform_def handle_def)
  have n: "fst (newDate (fixedPlatform True 1000000) w0) = 1000000" for w0
    by (simp add: fixedPlatform_def)
  have t: "taskId demoTask = ''t1''" "taskTitle demoTask = ''Pay rent''"
    by (simp_all add: demoTask_def)
  let ?s = "start (0::nat)\<lparr>notificationMap := [(''t1'', ''n'')]\<rparr>"
  note th = clearing_forgets_without_cancelling [where s = "?s" and ts = "[demoTask]" and t = demoTask and rd = 11800000
             and P = "fixedPlatform True 1000000"]
  have 1: "trace (clearNotificationMappings ?s) = trace ?s"
    by (rule th [THEN conjunct1])
  have e1: "notificationMap (clearNotificationMappings ?s) = []"
    by (rule th [THEN conjunct2, THEN conjunct2, THEN conjunct1])
  note again = th [THEN conjunct2, THEN conjunct2, THEN conjunct2, THEN conjunct2,
                   THEN conjunct1, THEN mp]
  have "\<exists>w0 h. requestsOf (filter (\<lambda>c. callTask c = taskId demoTask)
           (issued (clearNotificationMappings ?s)
              (syncNotifications (fixedPlatform True 1000000) [demoTask]
                 (clearNotificationMappings ?s)))) =
         reminderRequests (taskId demoTask) (taskTitle demoTask)
           ((11800000 - fst (newDate (fixedPlatform True 1000000) w0)) div 1000) \<and>
       map_of (notificationMap (syncNotifications (fixedPlatform True 1000000) [demoTask]
          (clearNotificationMappings ?s))) (taskId demoTask) = Some h"
    using b c by (intro again conjI)
  then have 2: "\<exists>h. requestsOf (filter (\<lambda>c. callTask c = ''t1'')
           (issued (clearNotificationMappings ?s)
              (syncNotifications (fixedPlatform True 1000000) [demoTask]
                 (clearNotificationMappings ?s)))) =
         reminderRequests ''t1'' ''Pay rent'' 10800 \<and>
       map_of (notificationMap (syncNotifications (fixedPlatform True 1000000) [demoTask]
          (clearNotificationMappings ?s))) ''t1'' = Some h"
    unfolding n t by simp
  have 3: "trace ?s = []" by (simp add: start_def)
  have rr: "reminderRequests ''t1'' ''Pay rent'' 10800 =
         [\<lparr>title = [CHR 0xE2, CHR 0x8F, CHR 0xB0] @ '' Task Reminder - NOW'', body = ''Pay rent'',
            data_taskId = ''t1'', data_taskTitle = ''Pay rent'', data_flag = IsMainReminder,
            priority = HIGH, seconds = 10800\<rparr>,
          \<lparr>title = [CHR 0xF0, CHR 0x9F, CHR 0x94, CHR 0x94] @ '' Reminder: Still Pending'',
            body = ''Pay rent'', data_taskId = ''t1'', data_taskTitle = ''Pay rent'',
            data_flag = IsFollowUp, priority = HIGH, seconds = 10920\<rparr>,
          \<lparr>title = [CHR 0xF0, CHR 0x9F, CHR 0x94, CHR 0x94] @ '' Reminder: Still Pending'',
            body = ''Pay rent'', data_taskId = ''t1'', data_taskTitle = ''Pay rent'',
            data_flag = IsFollowUp, priority = HIGH, seconds = 11040\<rparr>,
          \<lparr>title = [CHR 0xF0, CHR 0x9F, CHR 0x94, CHR 0x94] @ '' Reminder: Still Pending'',
            body = ''Pay rent'', data_taskId = ''t1'', data_taskTitle = ''Pay rent'',
            data_flag = IsFollowUp, priority = HIGH, seconds = 11160\<rparr>,
          \<lparr>title = [CHR 0xF0, CHR 0x9F, CHR 0x94, CHR 0x94] @ '' Reminder: Still Pending'',
            body = ''Pay rent'', data_taskId = ''t1'', data_taskTitle = ''Pay rent'',
            data_flag = IsFollowUp, priority = HIGH, seconds = 11280\<rparr>,
          \<lparr>title = [CHR 0xF0, CHR 0x9F, CHR 0x94, CHR 0x94] @ '' Reminder: Still Pending'',
            body = ''Pay rent'', data_taskId = ''t1'', data_taskTitle = ''Pay rent'',
            data_flag = IsFollowUp, priority = HIGH, seconds = 11400\<rparr>]"
    by (simp add: reminderRequests_def advanceNotifications_def mainRequest_def
          followUpRequest_def followUpIntervals_def)
  show ?thesis using 1 e1 2 3 unfolding rr by simp
qed

text \<open>The task has a reminder and an entry, and the clock is past the reminder. After the
  clearing the pass makes no call: the task is not scheduled afresh.\<close>

theorem cleared_past_reminder_not_rescheduled_counterexample:
  "hasReminder demoTask \<and>
   map_of (notificationMap (start (0::nat)\<lparr>notificationMap := [(''t1'', ''n'')]\<rparr>)) (taskId demoTask) =
     Some ''n'' \<and>
   issued (clearNotificationMappings (start 0\<lparr>notificationMap := [(''t1'', ''n'')]\<rparr>))
     (syncNotifications (fixedPlatform True 20000000) [demoTask]
        (clearNotificationMappings (start 0\<lparr>notificationMap := [(''t1'', ''n'')]\<rparr>))) = []"
  by (simp add: demoTask_def start_def hasReminder_def syncNotifications_def
        scheduleStep_def stale_def scheduleTaskReminder_def fixedPlatform_def
        checkNotificationPermission_def currentDate_def clearNotificationMappings_def
        issued_def)

end
